theory Spec2Isabelle
  imports Main
begin

section \<open>Run-queue key producer\<close>

text \<open>
  \<^verbatim>\<open>RunQueueShortKeyProducer\<close> builds the key strings of the run queue. JavaScript strings are
  modelled as \<^typ>\<open>string\<close>; a character is one of the 256 values of \<^typ>\<open>char\<close>, so the line
  terminators U+2028 and U+2029 of JavaScript are outside the model and U+000A, U+000D are the
  two line terminators it knows.
\<close>

text \<open>
  Modelled from the spec: the enumeration \<^verbatim>\<open>RuntimeEnvironmentType\<close> is declared in the database
  package. The key producer only distinguishes \<^verbatim>\<open>DEVELOPMENT\<close> from every other value.
\<close>

datatype RuntimeEnvironmentType = DEVELOPMENT | STAGING | PREVIEW | PRODUCTION

record AuthenticatedEnvironment =
  env_id :: string
  env_type :: RuntimeEnvironmentType
  env_organizationId :: string
  env_projectId :: string

text \<open>\<^verbatim>\<open>Array.prototype.join\<close> on an array of strings.\<close>

fun join :: "string \<Rightarrow> string list \<Rightarrow> string" where
  "join sep [] = []"
| "join sep [x] = x"
| "join sep (x # y # ys) = x @ sep @ join sep (y # ys)"

definition envKeySection :: "string \<Rightarrow> string" where
  "envKeySection envId = ''env'' @ '':'' @ envId"

definition envTypeKeySection :: "RuntimeEnvironmentType \<Rightarrow> string" where
  "envTypeKeySection envType =
     ''envType'' @ '':'' @ (if envType = DEVELOPMENT then ''dev'' else ''deployed'')"

definition projKeySection :: "string \<Rightarrow> string" where
  "projKeySection projId = ''proj'' @ '':'' @ projId"

definition orgKeySection :: "string \<Rightarrow> string" where
  "orgKeySection orgId = ''org'' @ '':'' @ orgId"

definition queueSection :: "string \<Rightarrow> string" where
  "queueSection queue = ''queue'' @ '':'' @ queue"

definition concurrencyKeySection :: "string \<Rightarrow> string" where
  "concurrencyKeySection concurrencyKey = ''ck'' @ '':'' @ concurrencyKey"

text \<open>
  \<^verbatim>\<open>queueKey(env, queue, concurrencyKey?)\<close>: the five sections, followed by the concurrency-key
  section when \<^verbatim>\<open>concurrencyKey\<close> is truthy (present and not the empty string), joined by a colon.
\<close>

definition queueKey :: "AuthenticatedEnvironment \<Rightarrow> string \<Rightarrow> string option \<Rightarrow> string" where
  "queueKey env queue concurrencyKey =
     join '':''
       ([orgKeySection (env_organizationId env),
         projKeySection (env_projectId env),
         envTypeKeySection (env_type env),
         envKeySection (env_id env),
         queueSection queue]
        @ (case concurrencyKey of
             None \<Rightarrow> []
           | Some k \<Rightarrow> if k \<noteq> [] then [concurrencyKeySection k] else []))"

definition queueConcurrencyLimitKey :: "AuthenticatedEnvironment \<Rightarrow> string \<Rightarrow> string" where
  "queueConcurrencyLimitKey env queue = join '':'' [queueKey env queue None, ''concurrency'']"

definition isLineTerminator :: "char \<Rightarrow> bool" where
  "isLineTerminator c \<longleftrightarrow> c = CHR 0x0A \<or> c = CHR 0x0D"

text \<open>
  The regular expression \<^verbatim>\<open>/:ck:.+$/\<close> (no flags) matches at a position when the text there
  starts with \<^verbatim>\<open>:ck:\<close> and at least one more character follows, none of the rest up to the end
  of the string being a line terminator (the dot does not match one, and without the \<^verbatim>\<open>m\<close> flag
  the dollar only matches at the end of the input).
\<close>

definition ckMatchAt :: "string \<Rightarrow> bool" where
  "ckMatchAt s \<longleftrightarrow>
     take 4 s = '':ck:'' \<and> drop 4 s \<noteq> [] \<and> list_all (\<lambda>c. \<not> isLineTerminator c) (drop 4 s)"

text \<open>
  \<^verbatim>\<open>queue.replace(/:ck:.+$/, "")\<close>: the leftmost match, which always extends to the end of the
  string, is removed; a string without a match is returned as it is.
\<close>

fun replaceCk :: "string \<Rightarrow> string" where
  "replaceCk [] = []"
| "replaceCk (c # cs) = (if ckMatchAt (c # cs) then [] else c # replaceCk cs)"

definition concurrencyLimitKeyFromQueue :: "string \<Rightarrow> string" where
  "concurrencyLimitKeyFromQueue queue = replaceCk queue @ '':'' @ ''concurrency''"


section \<open>Run engine: data model\<close>

text \<open>
  Modelled from the spec: the enumerations \<^verbatim>\<open>TaskRunStatus\<close>, \<^verbatim>\<open>TaskRunExecutionStatus\<close> and the
  waitpoint type and status are declared in the database schema; their values are those of the
  data model of the specification. The constructors carry a prefix because several of the
  enumerations share value names (\<^verbatim>\<open>PENDING\<close>, \<^verbatim>\<open>EXECUTING\<close>).
\<close>

datatype TaskRunStatus =
    TR_PENDING | TR_DELAYED | TR_EXECUTING | TR_WAITING_TO_RESUME
  | TR_COMPLETED_SUCCESSFULLY | TR_COMPLETED_WITH_ERRORS | TR_SYSTEM_FAILURE
  | TR_CRASHED | TR_EXPIRED | TR_CANCELED

datatype TaskRunExecutionStatus =
    ES_RUN_CREATED | ES_QUEUED | ES_DEQUEUED_FOR_EXECUTION | ES_EXECUTING
  | ES_EXECUTING_WITH_WAITPOINTS | ES_BLOCKED_BY_WAITPOINTS | ES_PENDING_EXECUTING
  | ES_PENDING_CANCEL | ES_SUSPENDED | ES_FINISHED

datatype WaitpointType = WT_RUN | WT_DATETIME | WT_MANUAL

datatype WaitpointStatus = WP_PENDING | WP_COMPLETED

text \<open>
  Rows of the relational store. Identifiers that the database generates are natural numbers
  drawn from a counter, times are milliseconds. Columns that the engine only copies from the
  trigger parameters into the row (payload, trace context, tags, metadata and the like) are left
  out; \<open>tr_runtimeEnvironment\<close> is the environment row that \<^verbatim>\<open>runtimeEnvironmentId\<close> refers to.
\<close>

record TaskRun =
  tr_id :: nat
  tr_status :: TaskRunStatus
  tr_number :: nat
  tr_friendlyId :: string
  tr_runtimeEnvironment :: AuthenticatedEnvironment
  tr_idempotencyKey :: "string option"
  tr_taskIdentifier :: string
  tr_concurrencyKey :: "string option"
  tr_queue :: string
  tr_masterQueue :: string
  tr_delayUntil :: "nat option"
  tr_ttl :: "string option"
  tr_parentTaskRunId :: "nat option"
  tr_resumeParentOnCompletion :: "bool option"

record TaskRunExecutionSnapshot =
  snap_id :: nat
  snap_runId :: nat
  snap_executionStatus :: TaskRunExecutionStatus
  snap_description :: string
  snap_runStatus :: TaskRunStatus
  snap_workerId :: "nat option"

record Waitpoint =
  wp_id :: nat
  wp_type :: WaitpointType
  wp_status :: WaitpointStatus
  wp_projectId :: string
  wp_completedByTaskRunId :: "nat option"
  wp_completedAfter :: "nat option"

record TaskRunWaitpoint =
  rw_taskRunId :: nat
  rw_waitpointId :: nat
  rw_projectId :: string

record TaskQueue =
  tq_id :: nat
  tq_name :: string
  tq_concurrencyLimit :: "int option"
  tq_runtimeEnvironmentId :: string
  tq_projectId :: string

text \<open>
  A request to the delayed-job worker, as \<^verbatim>\<open>worker.enqueue({id, job, payload, availableAt})\<close>
  passes it: the job name with its payload, the optional deterministic job id and the optional
  \<^verbatim>\<open>availableAt\<close>. \<open>None\<close> stands for a property that the call does not pass.
\<close>

datatype jobId = heartbeatSnapshotId nat | waitpointCompleteDateTimeId nat

datatype jobRequest =
    waitpointCompleteDateTime nat
  | heartbeatSnapshot nat nat
  | expireRun nat

record job =
  job_id :: "jobId option"
  job_request :: jobRequest
  job_availableAt :: "nat option"

record message =
  msg_runId :: nat
  msg_taskIdentifier :: string
  msg_orgId :: string
  msg_projectId :: string
  msg_environmentId :: string
  msg_environmentType :: RuntimeEnvironmentType
  msg_queue :: string
  msg_concurrencyKey :: "string option"
  msg_timestamp :: nat

text \<open>
  The state the engine works on: the five tables of the relational store, the jobs held by the
  delayed-job worker, the messages and the concurrency limits held by the run queue, the
  counter of generated identifiers and the reading of the clock (\<^verbatim>\<open>Date.now()\<close>), which does not
  advance within one operation.
\<close>

record engine =
  taskRuns :: "TaskRun list"
  snapshots :: "TaskRunExecutionSnapshot list"
  waitpoints :: "Waitpoint list"
  taskRunWaitpoints :: "TaskRunWaitpoint list"
  taskQueues :: "TaskQueue list"
  workerJobs :: "job list"
  queueMessages :: "(string \<times> message) list"
  queueConcurrencyLimits :: "((string \<times> string) \<times> int) list"
  nextId :: nat
  now :: nat

text \<open>
  Every \<^verbatim>\<open>throw\<close> of the engine is a value: an operation returns the state it leaves behind
  together with either the error or its result.
\<close>

datatype error =
    NotImplementedError string
  | WaitpointNotFound nat
  | NoTaskRunWaitpointsFound nat
  | NoSnapshotFound nat
  | TypeError
  | AssertNever
  | DatabaseError

record QueueOptions =
  qo_concurrencyLimit :: "int option"

record TriggerParams =
  tp_friendlyId :: string
  tp_number :: nat
  tp_environment :: AuthenticatedEnvironment
  tp_idempotencyKey :: "string option"
  tp_taskIdentifier :: string
  tp_concurrencyKey :: "string option"
  tp_masterQueue :: string
  tp_queueName :: string
  tp_queue :: "QueueOptions option"
  tp_delayUntil :: "nat option"
  tp_ttl :: "string option"
  tp_parentTaskRunId :: "nat option"
  tp_resumeParentOnCompletion :: "bool option"


section \<open>Run engine: collaborators\<close>

text \<open>
  Modelled from the spec: the delayed-job worker (\<^verbatim>\<open>@internal/redis-worker\<close>) is a durable timer
  queue with the operations \<^verbatim>\<open>enqueue\<close> and \<^verbatim>\<open>ack\<close>. \<open>worker_enqueue\<close> records the request as it
  was passed, \<open>worker_ack\<close> removes the jobs with the given id.
\<close>

definition worker_enqueue :: "job \<Rightarrow> engine \<Rightarrow> engine" where
  "worker_enqueue j s = s\<lparr>workerJobs := workerJobs s @ [j]\<rparr>"

definition worker_ack :: "jobId \<Rightarrow> engine \<Rightarrow> engine" where
  "worker_ack i s = s\<lparr>workerJobs := filter (\<lambda>j. job_id j \<noteq> Some i) (workerJobs s)\<rparr>"

text \<open>
  Modelled from the spec: the run queue (\<^verbatim>\<open>../run-queue\<close>). \<^verbatim>\<open>enqueueMessage\<close> appends the message
  to the queue under its master queue; \<^verbatim>\<open>updateQueueConcurrencyLimits\<close> and
  \<^verbatim>\<open>removeQueueConcurrencyLimits\<close> write and delete the limit of a queue of an environment.
\<close>

definition enqueueMessage :: "string \<Rightarrow> message \<Rightarrow> engine \<Rightarrow> engine" where
  "enqueueMessage masterQueue m s = s\<lparr>queueMessages := queueMessages s @ [(masterQueue, m)]\<rparr>"

definition updateQueueConcurrencyLimits ::
  "AuthenticatedEnvironment \<Rightarrow> string \<Rightarrow> int \<Rightarrow> engine \<Rightarrow> engine" where
  "updateQueueConcurrencyLimits env queue limit s =
     s\<lparr>queueConcurrencyLimits :=
         filter (\<lambda>e. fst e \<noteq> (env_id env, queue)) (queueConcurrencyLimits s)
         @ [((env_id env, queue), limit)]\<rparr>"

definition removeQueueConcurrencyLimits :: "AuthenticatedEnvironment \<Rightarrow> string \<Rightarrow> engine \<Rightarrow> engine" where
  "removeQueueConcurrencyLimits env queue s =
     s\<lparr>queueConcurrencyLimits :=
         filter (\<lambda>e. fst e \<noteq> (env_id env, queue)) (queueConcurrencyLimits s)\<rparr>"

text \<open>
  Modelled from the spec: \<^verbatim>\<open>$transaction\<close> of the database package runs its body in a database
  transaction, which always rolls back on failure. An error of the body restores the five
  tables and is thrown on to the caller (the error callback that \<^verbatim>\<open>#completeWaitpoint\<close> passes
  logs the error and throws it again). What the body did to the worker and to the run queue,
  which live outside the database, stays.
\<close>

definition transaction ::
  "(engine \<Rightarrow> engine \<times> (error + 'a)) \<Rightarrow> engine \<Rightarrow> engine \<times> (error + 'a)" where
  "transaction body s =
     (case body s of
        (s', Inr v) \<Rightarrow> (s', Inr v)
      | (s', Inl e) \<Rightarrow>
          (s'\<lparr>taskRuns := taskRuns s, snapshots := snapshots s, waitpoints := waitpoints s,
              taskRunWaitpoints := taskRunWaitpoints s, taskQueues := taskQueues s\<rparr>, Inl e))"

text \<open>
  \<^verbatim>\<open>redlock.using([id], 5000, ...)\<close> runs its callback under the lock of the run. The model is of
  one engine process: the lock is always acquired and never lost, so \<^verbatim>\<open>signal.aborted\<close> stays
  false and the callback's statements run in sequence.
\<close>


section \<open>Run engine: snapshots and heartbeats\<close>

text \<open>\<^verbatim>\<open>#startHeartbeating\<close>: one \<^verbatim>\<open>heartbeatSnapshot\<close> job, available \<open>intervalSeconds\<close> from now.\<close>

definition startHeartbeating :: "nat \<Rightarrow> nat \<Rightarrow> nat \<Rightarrow> engine \<Rightarrow> engine" where
  "startHeartbeating runId snapshotId intervalSeconds s =
     worker_enqueue
       \<lparr>job_id = Some (heartbeatSnapshotId snapshotId),
        job_request = heartbeatSnapshot runId snapshotId,
        job_availableAt = Some (now s + intervalSeconds * 1000)\<rparr> s"

text \<open>
  \<^verbatim>\<open>#createExecutionSnapshot\<close>: insert the snapshot row, then the \<^verbatim>\<open>switch\<close> on the execution
  status, which has no \<^verbatim>\<open>default\<close> branch. The table is kept in insertion order, which is the
  order of \<^verbatim>\<open>createdAt\<close>.
\<close>

definition createExecutionSnapshot ::
  "nat \<Rightarrow> TaskRunStatus \<Rightarrow> TaskRunExecutionStatus \<Rightarrow> string \<Rightarrow> engine
   \<Rightarrow> TaskRunExecutionSnapshot \<times> engine" where
  "createExecutionSnapshot runId runStatus executionStatus description s =
     (let newSnapshot =
            \<lparr>snap_id = nextId s, snap_runId = runId, snap_executionStatus = executionStatus,
             snap_description = description, snap_runStatus = runStatus, snap_workerId = None\<rparr>;
          s1 = s\<lparr>snapshots := snapshots s @ [newSnapshot], nextId := Suc (nextId s)\<rparr>
      in (newSnapshot,
          (case executionStatus of
             ES_RUN_CREATED \<Rightarrow> startHeartbeating runId (snap_id newSnapshot) 60 s1
           | ES_QUEUED \<Rightarrow> startHeartbeating runId (snap_id newSnapshot) 60 s1
           | ES_BLOCKED_BY_WAITPOINTS \<Rightarrow> startHeartbeating runId (snap_id newSnapshot) 60 s1
           | ES_FINISHED \<Rightarrow> startHeartbeating runId (snap_id newSnapshot) 60 s1
           | ES_DEQUEUED_FOR_EXECUTION \<Rightarrow> startHeartbeating runId (snap_id newSnapshot) 60 s1
           | ES_EXECUTING \<Rightarrow> startHeartbeating runId (snap_id newSnapshot) (60 * 15) s1
           | _ \<Rightarrow> s1)))"

text \<open>
  \<^verbatim>\<open>#getLatestExecutionSnapshot(prisma, runId)\<close> evaluates
  \<^verbatim>\<open>prisma.taskRunExecutionSnapshot.findFirst\<close> with the filter \<^verbatim>\<open>{ runId }\<close>, newest first.
  The first parameter is what the caller passes in the position of the database client: when
  it is not a client (\<open>NotPrisma\<close>), \<^verbatim>\<open>prisma.taskRunExecutionSnapshot\<close> is \<^verbatim>\<open>undefined\<close> and reading
  \<^verbatim>\<open>findFirst\<close> from it raises a \<^verbatim>\<open>TypeError\<close>. A \<open>runId\<close> that is \<^verbatim>\<open>undefined\<close> (\<open>None\<close>) is no filter.
\<close>

datatype prismaArgument = Prisma | NotPrisma

definition getLatestExecutionSnapshot ::
  "prismaArgument \<Rightarrow> nat option \<Rightarrow> engine \<Rightarrow> error + TaskRunExecutionSnapshot option" where
  "getLatestExecutionSnapshot prisma runId s =
     (case prisma of
        NotPrisma \<Rightarrow> Inl TypeError
      | Prisma \<Rightarrow>
          Inr (find (\<lambda>sn. case runId of None \<Rightarrow> True | Some r \<Rightarrow> snap_runId sn = r)
                 (rev (snapshots s))))"

text \<open>
  \<^verbatim>\<open>#handleStalledSnapshot\<close>, the handler of the \<^verbatim>\<open>heartbeatSnapshot\<close> job. Its first statement is
  \<^verbatim>\<open>await this.#getLatestExecutionSnapshot(runId)\<close>: the call passes one argument to a method of
  two parameters, so the run id arrives in the position of \<^verbatim>\<open>prisma\<close> and \<^verbatim>\<open>runId\<close> is \<^verbatim>\<open>undefined\<close>.
  \<open>handleStalledSnapshot_latest\<close> is the rest of the method, as a function of \<^verbatim>\<open>latestSnapshot\<close>.
\<close>

definition handleStalledSnapshot_latest ::
  "TaskRunExecutionSnapshot option \<Rightarrow> nat \<Rightarrow> nat \<Rightarrow> engine \<Rightarrow> engine \<times> (error + unit)" where
  "handleStalledSnapshot_latest latestSnapshot runId snapshotId s =
     (case latestSnapshot of
        None \<Rightarrow> (s, Inr ())
      | Some latest \<Rightarrow>
          if snap_id latest \<noteq> snapshotId then
            (worker_ack (heartbeatSnapshotId snapshotId) s, Inr ())
          else
            (case snap_executionStatus latest of
               ES_BLOCKED_BY_WAITPOINTS \<Rightarrow>
                 (s, Inl (NotImplementedError ''Not implemented BLOCKED_BY_WAITPOINTS''))
             | ES_DEQUEUED_FOR_EXECUTION \<Rightarrow>
                 (s, Inl (NotImplementedError ''Not implemented DEQUEUED_FOR_EXECUTION''))
             | ES_QUEUED \<Rightarrow> (s, Inl (NotImplementedError ''Not implemented QUEUED''))
             | ES_EXECUTING \<Rightarrow> (s, Inl (NotImplementedError ''Not implemented EXECUTING''))
             | ES_FINISHED \<Rightarrow> (s, Inl (NotImplementedError ''Not implemented FINISHED''))
             | ES_RUN_CREATED \<Rightarrow> (s, Inl (NotImplementedError ''Not implemented RUN_CREATED''))
             | _ \<Rightarrow> (s, Inl AssertNever)))"

definition handleStalledSnapshot :: "nat \<Rightarrow> nat \<Rightarrow> engine \<Rightarrow> engine \<times> (error + unit)" where
  "handleStalledSnapshot runId snapshotId s =
     (case getLatestExecutionSnapshot NotPrisma None s of
        Inl e \<Rightarrow> (s, Inl e)
      | Inr latestSnapshot \<Rightarrow> handleStalledSnapshot_latest latestSnapshot runId snapshotId s)"


section \<open>Run engine: queueing and waitpoints\<close>

definition runMessage :: "TaskRun \<Rightarrow> AuthenticatedEnvironment \<Rightarrow> nat \<Rightarrow> message" where
  "runMessage run env timestamp =
     \<lparr>msg_runId = tr_id run, msg_taskIdentifier = tr_taskIdentifier run,
      msg_orgId = env_organizationId env, msg_projectId = env_projectId env,
      msg_environmentId = env_id env, msg_environmentType = env_type env,
      msg_queue = tr_queue run, msg_concurrencyKey = tr_concurrencyKey run,
      msg_timestamp = timestamp\<rparr>"

text \<open>\<^verbatim>\<open>#enqueueRun\<close>: a \<^verbatim>\<open>QUEUED\<close> snapshot, then the message on the run queue.\<close>

definition enqueueRun :: "TaskRun \<Rightarrow> AuthenticatedEnvironment \<Rightarrow> engine \<Rightarrow> engine" where
  "enqueueRun run env s =
     (let (newSnapshot, s1) =
            createExecutionSnapshot (tr_id run) (tr_status run) ES_QUEUED ''Run was QUEUED'' s
      in enqueueMessage (tr_masterQueue run) (runMessage run env (now s1)) s1)"

text \<open>
  \<^verbatim>\<open>#continueRun\<close>: without a snapshot it throws; for a run that is still executing on a worker
  it writes an \<^verbatim>\<open>EXECUTING\<close> snapshot and then throws \<^verbatim>\<open>NotImplementedError\<close>; otherwise it writes
  a \<^verbatim>\<open>QUEUED\<close> snapshot and enqueues the run.
\<close>

definition continueRun ::
  "TaskRun \<Rightarrow> AuthenticatedEnvironment \<Rightarrow> engine \<Rightarrow> engine \<times> (error + unit)" where
  "continueRun run env s =
     (case getLatestExecutionSnapshot Prisma (Some (tr_id run)) s of
        Inl e \<Rightarrow> (s, Inl e)
      | Inr None \<Rightarrow> (s, Inl (NoSnapshotFound (tr_id run)))
      | Inr (Some snapshot) \<Rightarrow>
          if snap_executionStatus snapshot = ES_EXECUTING \<and> snap_workerId snapshot \<noteq> None then
            (let (newSnapshot, s1) =
                   createExecutionSnapshot (tr_id run) (tr_status run) ES_EXECUTING
                     ''Run was continued, whilst still executing.'' s
             in (s1, Inl (NotImplementedError
                   ''RunEngine.#continueRun(): continue executing run, not implemented yet'')))
          else
            (let (newSnapshot, s1) =
                   createExecutionSnapshot (tr_id run) (tr_status run) ES_QUEUED
                     ''Run was QUEUED, because it needs to be continued.'' s
             in (enqueueMessage (tr_masterQueue run) (runMessage run env (now s1)) s1, Inr ())))"

text \<open>
  The waitpoint constructors. The random \<^verbatim>\<open>idempotencyKey\<close> (\<^verbatim>\<open>nanoid(24)\<close>) of a waitpoint is not
  a column of the model.
\<close>

definition createRunAssociatedWaitpoint :: "string \<Rightarrow> nat \<Rightarrow> engine \<Rightarrow> Waitpoint \<times> engine" where
  "createRunAssociatedWaitpoint projectId completedByTaskRunId s =
     (let w = \<lparr>wp_id = nextId s, wp_type = WT_RUN, wp_status = WP_PENDING, wp_projectId = projectId,
               wp_completedByTaskRunId = Some completedByTaskRunId, wp_completedAfter = None\<rparr>
      in (w, s\<lparr>waitpoints := waitpoints s @ [w], nextId := Suc (nextId s)\<rparr>))"

definition createDateTimeWaitpoint :: "string \<Rightarrow> nat \<Rightarrow> engine \<Rightarrow> Waitpoint \<times> engine" where
  "createDateTimeWaitpoint projectId completedAfter s =
     (let waitpoint = \<lparr>wp_id = nextId s, wp_type = WT_DATETIME, wp_status = WP_PENDING,
                       wp_projectId = projectId, wp_completedByTaskRunId = None,
                       wp_completedAfter = Some completedAfter\<rparr>;
          s1 = s\<lparr>waitpoints := waitpoints s @ [waitpoint], nextId := Suc (nextId s)\<rparr>
      in (waitpoint,
          worker_enqueue
            \<lparr>job_id = Some (waitpointCompleteDateTimeId (wp_id waitpoint)),
             job_request = waitpointCompleteDateTime (wp_id waitpoint),
             job_availableAt = Some completedAfter\<rparr> s1))"

text \<open>
  \<^verbatim>\<open>#blockRunWithWaitpoint\<close> throws \<^verbatim>\<open>NotImplementedError\<close> as its first statement; the
  \<^verbatim>\<open>taskRunWaitpoint.create\<close> written after the \<^verbatim>\<open>throw\<close> is never reached.
\<close>

definition blockRunWithWaitpoint ::
  "string \<Rightarrow> nat \<Rightarrow> Waitpoint \<Rightarrow> engine \<Rightarrow> engine \<times> (error + TaskRunWaitpoint)" where
  "blockRunWithWaitpoint orgId runId waitpoint s =
     (s, Inl (NotImplementedError ''Not implemented #blockRunWithWaitpoint''))"

text \<open>The loop \<^verbatim>\<open>for (const run of taskRunsToResume) await this.#continueRun(...)\<close>.\<close>

fun continueRuns :: "TaskRun list \<Rightarrow> engine \<Rightarrow> engine \<times> (error + unit)" where
  "continueRuns [] s = (s, Inr ())"
| "continueRuns (run # runs) s =
     (case continueRun run (tr_runtimeEnvironment run) s of
        (s1, Inl e) \<Rightarrow> (s1, Inl e)
      | (s1, Inr _) \<Rightarrow> continueRuns runs s1)"

text \<open>
  The query of step 4 of \<^verbatim>\<open>#completeWaitpoint\<close>: the runs whose id is among the affected ones,
  that no \<^verbatim>\<open>TaskRunWaitpoint\<close> row blocks (\<^verbatim>\<open>blockedByWaitpoints: { none: {} }\<close>) and whose status
  is \<^verbatim>\<open>PENDING\<close> or \<^verbatim>\<open>WAITING_TO_RESUME\<close>.
\<close>

definition taskRunsToResume :: "nat list \<Rightarrow> engine \<Rightarrow> TaskRun list" where
  "taskRunsToResume affectedTaskRuns s =
     filter (\<lambda>run. tr_id run \<in> set affectedTaskRuns
                 \<and> list_all (\<lambda>rw. rw_taskRunId rw \<noteq> tr_id run) (taskRunWaitpoints s)
                 \<and> (tr_status run = TR_PENDING \<or> tr_status run = TR_WAITING_TO_RESUME))
       (taskRuns s)"

definition completeWaitpoint :: "nat \<Rightarrow> engine \<Rightarrow> engine \<times> (error + unit)" where
  "completeWaitpoint id' s =
     (case find (\<lambda>w. wp_id w = id') (waitpoints s) of
        None \<Rightarrow> (s, Inl (WaitpointNotFound id'))
      | Some waitpoint \<Rightarrow>
          if wp_status waitpoint = WP_COMPLETED then (s, Inr ())
          else
            transaction (\<lambda>tx.
              let affectedTaskRuns =
                    map rw_taskRunId (filter (\<lambda>rw. rw_waitpointId rw = id') (taskRunWaitpoints tx))
              in if length affectedTaskRuns = 0 then (tx, Inl (NoTaskRunWaitpointsFound id'))
                 else
                   let tx1 = tx\<lparr>taskRunWaitpoints :=
                                  filter (\<lambda>rw. rw_waitpointId rw \<noteq> id') (taskRunWaitpoints tx)\<rparr>;
                       tx2 = tx1\<lparr>waitpoints :=
                                  map (\<lambda>w. if wp_id w = id' then w\<lparr>wp_status := WP_COMPLETED\<rparr> else w)
                                    (waitpoints tx1)\<rparr>
                   in continueRuns (taskRunsToResume affectedTaskRuns tx2) tx2) s)"



text \<open>
  A run can be continued when it has a latest snapshot and is not executing on a worker: the
  two cases in which \<^verbatim>\<open>#continueRun\<close> does not throw.
\<close>

definition continuable :: "engine \<Rightarrow> TaskRun \<Rightarrow> bool" where
  "continuable s run \<longleftrightarrow>
     (case find (\<lambda>sn. snap_runId sn = tr_id run) (rev (snapshots s)) of
        None \<Rightarrow> False
      | Some sn \<Rightarrow> \<not> (snap_executionStatus sn = ES_EXECUTING \<and> snap_workerId sn \<noteq> None))"

text \<open>The snapshot that \<^verbatim>\<open>#continueRun\<close> writes for a run it puts back on the queue.\<close>

definition queuedSnapshot :: "TaskRun \<Rightarrow> nat \<Rightarrow> TaskRunExecutionSnapshot" where
  "queuedSnapshot run i =
     \<lparr>snap_id = i, snap_runId = tr_id run, snap_executionStatus = ES_QUEUED,
      snap_description = ''Run was QUEUED, because it needs to be continued.'',
      snap_runStatus = tr_status run, snap_workerId = None\<rparr>"

definition snapshotKey :: "TaskRunExecutionSnapshot \<Rightarrow> nat \<times> TaskRunExecutionStatus" where
  "snapshotKey sn = (snap_runId sn, snap_executionStatus sn)"

text \<open>
  The runs to continue in the words of the specification: the runs that waitpoint \<open>i\<close> blocked
  in the state \<open>s\<close> before the call, that no \<^verbatim>\<open>RunWaitpoint\<close> row blocks in the state \<open>s'\<close> after it,
  and whose status is \<^verbatim>\<open>PENDING\<close> or \<^verbatim>\<open>WAITING_TO_RESUME\<close>.
\<close>

definition spec_runsToContinue :: "nat \<Rightarrow> engine \<Rightarrow> engine \<Rightarrow> TaskRun list" where
  "spec_runsToContinue i s s' =
     filter (\<lambda>run. (\<exists>rw \<in> set (taskRunWaitpoints s). rw_taskRunId rw = tr_id run \<and> rw_waitpointId rw = i)
                 \<and> (\<forall>rw \<in> set (taskRunWaitpoints s'). rw_taskRunId rw \<noteq> tr_id run)
                 \<and> tr_status run \<in> {TR_PENDING, TR_WAITING_TO_RESUME})
       (taskRuns s)"

section \<open>Run engine: trigger\<close>

text \<open>
  \<^verbatim>\<open>prisma.taskRun.create\<close> with the nested \<^verbatim>\<open>executionSnapshot: { create: ... }\<close>: one insert writes
  the run row and its first snapshot, \<^verbatim>\<open>RUN_CREATED\<close>. The unique and foreign-key constraints of
  the table are declared in the database schema, so they are the parameter \<open>accepts\<close>: whether
  the table takes the new row beside the rows it holds. A rejected insert throws and writes
  nothing.
\<close>

definition initialSnapshot :: "TaskRun \<Rightarrow> nat \<Rightarrow> TaskRunExecutionSnapshot" where
  "initialSnapshot run i =
     \<lparr>snap_id = i, snap_runId = tr_id run, snap_executionStatus = ES_RUN_CREATED,
      snap_description = ''Run was created'', snap_runStatus = tr_status run, snap_workerId = None\<rparr>"

definition newTaskRun :: "TaskRunStatus \<Rightarrow> TriggerParams \<Rightarrow> nat \<Rightarrow> TaskRun" where
  "newTaskRun status p i =
     \<lparr>tr_id = i, tr_status = status, tr_number = tp_number p,
      tr_friendlyId = tp_friendlyId p, tr_runtimeEnvironment = tp_environment p,
      tr_idempotencyKey = tp_idempotencyKey p, tr_taskIdentifier = tp_taskIdentifier p,
      tr_concurrencyKey = tp_concurrencyKey p, tr_queue = tp_queueName p,
      tr_masterQueue = tp_masterQueue p, tr_delayUntil = tp_delayUntil p,
      tr_ttl = tp_ttl p, tr_parentTaskRunId = tp_parentTaskRunId p,
      tr_resumeParentOnCompletion = tp_resumeParentOnCompletion p\<rparr>"

definition taskRun_create ::
  "(TaskRun list \<Rightarrow> TaskRun \<Rightarrow> bool) \<Rightarrow> TaskRunStatus \<Rightarrow> TriggerParams \<Rightarrow> engine
   \<Rightarrow> engine \<times> (error + TaskRun)" where
  "taskRun_create accepts status p s =
     (let taskRun = newTaskRun status p (nextId s)
      in if accepts (taskRuns s) taskRun then
           (s\<lparr>taskRuns := taskRuns s @ [taskRun],
              snapshots := snapshots s @ [initialSnapshot taskRun (Suc (nextId s))],
              nextId := Suc (Suc (nextId s))\<rparr>, Inr taskRun)
         else (s, Inl DatabaseError))"

text \<open>
  The statements of the callback that \<^verbatim>\<open>trigger\<close> runs under the lock of the new run, one
  definition for each block, in the order of the source.

  \<open>trigger_blockParent\<close> is the block \<^verbatim>\<open>if (resumeParentOnCompletion && parentTaskRunId)\<close>.
\<close>

definition trigger_blockParent ::
  "TriggerParams \<Rightarrow> Waitpoint \<Rightarrow> engine \<Rightarrow> engine \<times> (error + unit)" where
  "trigger_blockParent p associatedWaitpoint s =
     (case (tp_resumeParentOnCompletion p, tp_parentTaskRunId p) of
        (Some True, Some parentTaskRunId) \<Rightarrow>
          (case blockRunWithWaitpoint (env_organizationId (tp_environment p)) parentTaskRunId
                  associatedWaitpoint s of
             (s', Inl e) \<Rightarrow> (s', Inl e)
           | (s', Inr _) \<Rightarrow> (s', Inr ()))
      | _ \<Rightarrow> (s, Inr ()))"

text \<open>
  The block \<^verbatim>\<open>if (queue)\<close>: the limit is \<^verbatim>\<open>Math.max(0, queue.concurrencyLimit)\<close> when that is a
  number and \<^verbatim>\<open>undefined\<close> otherwise; an update by \<^verbatim>\<open>undefined\<close> leaves the column as it was. The
  limit of the resulting row goes to the run queue. The rate limit of a queue is not modelled.
\<close>

definition trigger_queue :: "TriggerParams \<Rightarrow> engine \<Rightarrow> engine" where
  "trigger_queue p s =
     (case tp_queue p of
        None \<Rightarrow> s
      | Some queue \<Rightarrow>
          (let environment = tp_environment p;
               concurrencyLimit = map_option (max 0) (qo_concurrencyLimit queue);
               (taskQueue, s1) =
                 (case find (\<lambda>q. tq_runtimeEnvironmentId q = env_id environment
                                 \<and> tq_name q = tp_queueName p) (taskQueues s) of
                    Some found \<Rightarrow>
                      (let updated = (case concurrencyLimit of
                                        None \<Rightarrow> found
                                      | Some l \<Rightarrow> found\<lparr>tq_concurrencyLimit := Some l\<rparr>)
                       in (updated,
                           s\<lparr>taskQueues := map (\<lambda>q. if tq_id q = tq_id found then updated else q)
                                              (taskQueues s)\<rparr>))
                  | None \<Rightarrow>
                      (let created = \<lparr>tq_id = nextId s, tq_name = tp_queueName p,
                                      tq_concurrencyLimit = concurrencyLimit,
                                      tq_runtimeEnvironmentId = env_id environment,
                                      tq_projectId = env_projectId environment\<rparr>
                       in (created,
                           s\<lparr>taskQueues := taskQueues s @ [created], nextId := Suc (nextId s)\<rparr>)))
           in (case tq_concurrencyLimit taskQueue of
                 Some l \<Rightarrow> updateQueueConcurrencyLimits environment (tq_name taskQueue) l s1
               | None \<Rightarrow> removeQueueConcurrencyLimits environment (tq_name taskQueue) s1)))"

text \<open>The block \<^verbatim>\<open>if (taskRun.delayUntil)\<close>: a datetime waitpoint and the row that blocks the run.\<close>

definition trigger_delay :: "TriggerParams \<Rightarrow> TaskRun \<Rightarrow> engine \<Rightarrow> engine" where
  "trigger_delay p taskRun s =
     (case tr_delayUntil taskRun of
        None \<Rightarrow> s
      | Some delayUntil \<Rightarrow>
          (let (delayWaitpoint, s1) =
                 createDateTimeWaitpoint (env_projectId (tp_environment p)) delayUntil s
           in s1\<lparr>taskRunWaitpoints := taskRunWaitpoints s1 @
                   [\<lparr>rw_taskRunId = tr_id taskRun, rw_waitpointId = wp_id delayWaitpoint,
                     rw_projectId = wp_projectId delayWaitpoint\<rparr>]\<rparr>))"

text \<open>
  The block \<^verbatim>\<open>if (!taskRun.delayUntil && taskRun.ttl)\<close>. \<^verbatim>\<open>parseNaturalLanguageDuration\<close> belongs
  to another package and is a parameter: from the clock and the text of the duration it gives
  the date of expiry, or nothing for a text that is no duration. The source binds the date to
  \<^verbatim>\<open>expireAt\<close>, tests it, and calls \<^verbatim>\<open>worker.enqueue({ job: "expireRun", payload: { runId } })\<close>: the
  request has neither an id nor an \<^verbatim>\<open>availableAt\<close>.
\<close>

definition trigger_ttl :: "(nat \<Rightarrow> string \<Rightarrow> nat option) \<Rightarrow> TaskRun \<Rightarrow> engine \<Rightarrow> engine" where
  "trigger_ttl parseNaturalLanguageDuration taskRun s =
     (case tr_ttl taskRun of
        None \<Rightarrow> s
      | Some ttl \<Rightarrow>
          if tr_delayUntil taskRun = None \<and> ttl \<noteq> [] then
            (case parseNaturalLanguageDuration (now s) ttl of
               None \<Rightarrow> s
             | Some expireAt \<Rightarrow>
                 worker_enqueue
                   \<lparr>job_id = None, job_request = expireRun (tr_id taskRun),
                    job_availableAt = None\<rparr> s)
          else s)"

text \<open>The block \<^verbatim>\<open>if (!taskRun.delayUntil)\<close>: enqueue the run.\<close>

definition trigger_enqueue :: "TriggerParams \<Rightarrow> TaskRun \<Rightarrow> engine \<Rightarrow> engine" where
  "trigger_enqueue p taskRun s =
     (if tr_delayUntil taskRun = None then enqueueRun taskRun (tp_environment p) s else s)"

definition trigger_locked ::
  "(nat \<Rightarrow> string \<Rightarrow> nat option) \<Rightarrow> TriggerParams \<Rightarrow> TaskRun \<Rightarrow> engine
   \<Rightarrow> engine \<times> (error + unit)" where
  "trigger_locked parseNaturalLanguageDuration p taskRun s =
     (let (associatedWaitpoint, s1) =
            createRunAssociatedWaitpoint (env_projectId (tp_environment p)) (tr_id taskRun) s
      in case trigger_blockParent p associatedWaitpoint s1 of
           (s2, Inl e) \<Rightarrow> (s2, Inl e)
         | (s2, Inr _) \<Rightarrow>
             (trigger_enqueue p taskRun
                (trigger_ttl parseNaturalLanguageDuration taskRun
                   (trigger_delay p taskRun (trigger_queue p s2))),
              Inr ()))"

text \<open>
  \<^verbatim>\<open>RunEngine.trigger\<close>, called without a transaction of the caller (\<^verbatim>\<open>tx\<close> undefined), so that
  every write is committed as it is made and stays when a later statement throws.
  \<open>initialStatus\<close> is \<^verbatim>\<open>const status = delayUntil ? "DELAYED" : "PENDING"\<close>.
\<close>

definition initialStatus :: "TriggerParams \<Rightarrow> TaskRunStatus" where
  "initialStatus p = (if tp_delayUntil p \<noteq> None then TR_DELAYED else TR_PENDING)"

definition trigger ::
  "(TaskRun list \<Rightarrow> TaskRun \<Rightarrow> bool) \<Rightarrow> (nat \<Rightarrow> string \<Rightarrow> nat option) \<Rightarrow> TriggerParams \<Rightarrow> engine
   \<Rightarrow> engine \<times> (error + TaskRun)" where
  "trigger accepts parseNaturalLanguageDuration p s =
     (let status = initialStatus p
      in case taskRun_create accepts status p s of
           (s1, Inl e) \<Rightarrow> (s1, Inl e)
         | (s1, Inr taskRun) \<Rightarrow>
             (case trigger_locked parseNaturalLanguageDuration p taskRun s1 of
                (s2, Inl e) \<Rightarrow> (s2, Inl e)
              | (s2, Inr _) \<Rightarrow> (s2, Inr taskRun)))"


section \<open>Notions used in the statements about the engine\<close>

text \<open>The initial snapshots of a table are those of status \<^verbatim>\<open>RUN_CREATED\<close>.\<close>

definition isInitial :: "TaskRunExecutionSnapshot \<Rightarrow> bool" where
  "isInitial sn \<longleftrightarrow> snap_executionStatus sn = ES_RUN_CREATED"

text \<open>
  \<open>keepsRuns s s'\<close>: from \<open>s\<close> to \<open>s'\<close> the table of runs and the initial snapshots stay as they are
  and no identifier is given out twice.
\<close>

definition keepsRuns :: "engine \<Rightarrow> engine \<Rightarrow> bool" where
  "keepsRuns s s' \<longleftrightarrow>
     taskRuns s' = taskRuns s \<and> nextId s \<le> nextId s'
     \<and> filter isInitial (snapshots s') = filter isInitial (snapshots s)"

text \<open>
  \<open>sameRunState s s'\<close>: the run, snapshot, waitpoint and queue state of \<open>s'\<close> is that of \<open>s\<close>; only
  the jobs of the delayed-job worker and the counter of identifiers may differ.
\<close>

definition sameRunState :: "engine \<Rightarrow> engine \<Rightarrow> bool" where
  "sameRunState s s' \<longleftrightarrow>
     taskRuns s' = taskRuns s \<and> snapshots s' = snapshots s \<and> waitpoints s' = waitpoints s
     \<and> taskRunWaitpoints s' = taskRunWaitpoints s \<and> taskQueues s' = taskQueues s
     \<and> queueMessages s' = queueMessages s
     \<and> queueConcurrencyLimits s' = queueConcurrencyLimits s"


section \<open>Runner: the managed run controller\<close>

text \<open>
  \<^verbatim>\<open>attemptNumber?: number | null\<close> has three kinds of values, which \<^verbatim>\<open>!==\<close> tells apart.
\<close>

datatype attemptNumber = AttemptUndefined | AttemptNull | Attempt nat

record Run =
  run_friendlyId :: string
  run_attemptNumber :: attemptNumber

record Snapshot =
  snapshot_friendlyId :: string

datatype controllerState = RUN Run Snapshot | IDLE | WARM_START

datatype socketEvent = run_start string string | run_stop string string

datatype processState = ProcessRunning | ProcessKilled

text \<open>
  The fields of the controller that its reactions read and write: the phase, the two flags that
  guard \<^verbatim>\<open>handleSnapshotChange\<close> and \<^verbatim>\<open>waitForNextRun\<close>, whether the heartbeat and the snapshot
  poller run, the events emitted on the socket, and the child process, if there is one.
\<close>

record controller =
  ctl_state :: controllerState
  handleSnapshotChangeLock :: bool
  waitForNextRunLock :: bool
  runHeartbeat :: bool
  snapshotPoller :: bool
  socketEmitted :: "socketEvent list"
  taskRunProcess :: "processState option"

record RunExecutionData =
  ed_run :: Run
  ed_snapshot :: Snapshot
  ed_executionStatus :: TaskRunExecutionStatus

datatype phaseError = InvalidPhase | MismatchedRunIds | AttemptNumberChanged

definition snapshotFriendlyId :: "controller \<Rightarrow> string option" where
  "snapshotFriendlyId c =
     (case ctl_state c of RUN run snapshot \<Rightarrow> Some (snapshot_friendlyId snapshot) | _ \<Rightarrow> None)"

definition updateRunPhase :: "Run \<Rightarrow> Snapshot \<Rightarrow> controller \<Rightarrow> phaseError + controller" where
  "updateRunPhase run snapshot c =
     (case ctl_state c of
        RUN heldRun heldSnapshot \<Rightarrow>
          if run_friendlyId heldRun \<noteq> run_friendlyId run then Inl MismatchedRunIds
          else if snapshot_friendlyId heldSnapshot = snapshot_friendlyId snapshot then Inr c
          else if run_attemptNumber heldRun \<noteq> run_attemptNumber run then Inl AttemptNumberChanged
          else Inr (c\<lparr>ctl_state :=
                       RUN \<lparr>run_friendlyId = run_friendlyId run,
                            run_attemptNumber = run_attemptNumber run\<rparr>
                           \<lparr>snapshot_friendlyId = snapshot_friendlyId snapshot\<rparr>\<rparr>)
      | _ \<Rightarrow> Inl InvalidPhase)"

definition onExitRunPhase :: "Run option \<Rightarrow> controller \<Rightarrow> controller" where
  "onExitRunPhase newRun c =
     (case ctl_state c of
        RUN run snapshot \<Rightarrow>
          if map_option run_friendlyId newRun = Some (run_friendlyId run) then c
          else c\<lparr>runHeartbeat := False, snapshotPoller := False,
                 socketEmitted := socketEmitted c @
                   [run_stop (run_friendlyId run) (snapshot_friendlyId snapshot)]\<rparr>
      | _ \<Rightarrow> c)"

definition enterWarmStartPhase :: "controller \<Rightarrow> controller" where
  "enterWarmStartPhase c = (onExitRunPhase None c)\<lparr>ctl_state := WARM_START\<rparr>"

text \<open>
  \<^verbatim>\<open>waitForNextRun\<close> up to its first suspension: the guard on its flag, the warm-start phase and
  the \<^verbatim>\<open>SIGKILL\<close> sent to the child process. The long poll for the next run follows
  asynchronously and is not part of the model; the flag is released when that has finished.
\<close>

definition waitForNextRun :: "controller \<Rightarrow> controller" where
  "waitForNextRun c =
     (if waitForNextRunLock c then c
      else (let c1 = enterWarmStartPhase (c\<lparr>waitForNextRunLock := True\<rparr>)
            in c1\<lparr>taskRunProcess := map_option (\<lambda>_. ProcessKilled) (taskRunProcess c1)\<rparr>))"

text \<open>
  \<^verbatim>\<open>handleSnapshotChange\<close> up to the \<^verbatim>\<open>switch\<close> on the execution status of the new snapshot. The
  test \<^verbatim>\<open>!this.snapshotFriendlyId\<close> holds outside the run phase and for an empty id. An
  update that is dropped or that sends the runner to wait for its next run leaves the method
  through \<^verbatim>\<open>finally\<close>, which releases the flag; an update that was applied goes on to the
  \<^verbatim>\<open>switch\<close> (\<open>Dispatch\<close>), with the flag still held. Debug logging is left out.
\<close>

datatype reaction =
    AlreadyInProgress | MissingSnapshotId | SnapshotNotChanged | WaitingForNextRun
  | Dispatch TaskRunExecutionStatus

definition handleSnapshotChange :: "RunExecutionData \<Rightarrow> controller \<Rightarrow> controller \<times> reaction" where
  "handleSnapshotChange d c =
     (if handleSnapshotChangeLock c then (c, AlreadyInProgress)
      else
        (let c1 = c\<lparr>handleSnapshotChangeLock := True\<rparr>
         in case snapshotFriendlyId c1 of
              None \<Rightarrow> (c1\<lparr>handleSnapshotChangeLock := False\<rparr>, MissingSnapshotId)
            | Some held \<Rightarrow>
                if held = [] then (c1\<lparr>handleSnapshotChangeLock := False\<rparr>, MissingSnapshotId)
                else if held = snapshot_friendlyId (ed_snapshot d) then
                  (c1\<lparr>handleSnapshotChangeLock := False\<rparr>, SnapshotNotChanged)
                else
                  (case updateRunPhase (ed_run d) (ed_snapshot d) c1 of
                     Inl e \<Rightarrow> ((waitForNextRun c1)\<lparr>handleSnapshotChangeLock := False\<rparr>,
                               WaitingForNextRun)
                   | Inr c2 \<Rightarrow> (c2, Dispatch (ed_executionStatus d)))))"


section \<open>Concrete environments, states and requests\<close>

definition env0 :: AuthenticatedEnvironment where
  "env0 = \<lparr>env_id = ''e1'', env_type = PRODUCTION, env_organizationId = ''o1'',
            env_projectId = ''p1''\<rparr>"

definition emptyEngine :: engine where
  "emptyEngine = \<lparr>taskRuns = [], snapshots = [], waitpoints = [], taskRunWaitpoints = [],
     taskQueues = [], workerJobs = [], queueMessages = [], queueConcurrencyLimits = [],
     nextId = 0, now = 1000\<rparr>"

definition helloParams :: TriggerParams where
  "helloParams = \<lparr>tp_friendlyId = ''run_1'', tp_number = 1, tp_environment = env0,
     tp_idempotencyKey = Some ''k'', tp_taskIdentifier = ''hello'', tp_concurrencyKey = None,
     tp_masterQueue = ''m'', tp_queueName = ''task/hello'', tp_queue = None,
     tp_delayUntil = None, tp_ttl = None, tp_parentTaskRunId = None,
     tp_resumeParentOnCompletion = None\<rparr>"

text \<open>The same request sent again: a new friendly id and number, the same idempotency key.\<close>

definition helloAgainParams :: TriggerParams where
  "helloAgainParams = helloParams\<lparr>tp_friendlyId := ''run_2'', tp_number := 2\<rparr>"

text \<open>The same request with a time to live of thirty seconds.\<close>

definition ttlParams :: TriggerParams where
  "ttlParams = helloParams\<lparr>tp_friendlyId := ''run_3'', tp_idempotencyKey := None,
     tp_ttl := Some ''30s''\<rparr>"

text \<open>A request of run 0 for a child run on whose completion it resumes.\<close>

definition childParams :: TriggerParams where
  "childParams = helloParams\<lparr>tp_friendlyId := ''run_4'', tp_idempotencyKey := None,
     tp_parentTaskRunId := Some 0, tp_resumeParentOnCompletion := Some True\<rparr>"

text \<open>Two schemas: one without constraints, one where the idempotency key of a task in an
  environment is unique.\<close>

definition acceptAll :: "TaskRun list \<Rightarrow> TaskRun \<Rightarrow> bool" where
  "acceptAll rows row = True"

definition uniqueIdempotencyKey :: "TaskRun list \<Rightarrow> TaskRun \<Rightarrow> bool" where
  "uniqueIdempotencyKey rows row =
     list_all (\<lambda>r. \<not> (tr_idempotencyKey row \<noteq> None
                     \<and> tr_idempotencyKey r = tr_idempotencyKey row
                     \<and> tr_taskIdentifier r = tr_taskIdentifier row
                     \<and> env_id (tr_runtimeEnvironment r) = env_id (tr_runtimeEnvironment row))) rows"

text \<open>A parser of durations that knows the text \<^verbatim>\<open>30s\<close>.\<close>

definition parseSeconds :: "nat \<Rightarrow> string \<Rightarrow> nat option" where
  "parseSeconds t ttl = (if ttl = ''30s'' then Some (t + 30000) else None)"

text \<open>The state after the request \<open>helloParams\<close> was triggered on the empty state.\<close>

definition afterHello :: engine where
  "afterHello = fst (trigger acceptAll parseSeconds helloParams emptyEngine)"

definition exampleRun :: "nat \<Rightarrow> TaskRunStatus \<Rightarrow> TaskRun" where
  "exampleRun i st =
     \<lparr>tr_id = i, tr_status = st, tr_number = i, tr_friendlyId = ''run'',
      tr_runtimeEnvironment = env0, tr_idempotencyKey = None, tr_taskIdentifier = ''hello'',
      tr_concurrencyKey = None, tr_queue = ''task/hello'', tr_masterQueue = ''m'',
      tr_delayUntil = None, tr_ttl = None, tr_parentTaskRunId = None,
      tr_resumeParentOnCompletion = None\<rparr>"

definition exampleSnapshot ::
  "nat \<Rightarrow> nat \<Rightarrow> TaskRunExecutionStatus \<Rightarrow> TaskRunStatus \<Rightarrow> nat option \<Rightarrow> TaskRunExecutionSnapshot" where
  "exampleSnapshot i r es st w =
     \<lparr>snap_id = i, snap_runId = r, snap_executionStatus = es, snap_description = ''snapshot'',
      snap_runStatus = st, snap_workerId = w\<rparr>"

definition exampleWaitpoint :: "nat \<Rightarrow> WaitpointStatus \<Rightarrow> Waitpoint" where
  "exampleWaitpoint i st =
     \<lparr>wp_id = i, wp_type = WT_RUN, wp_status = st, wp_projectId = ''p1'',
      wp_completedByTaskRunId = Some 9, wp_completedAfter = None\<rparr>"

definition blocks :: "nat \<Rightarrow> nat \<Rightarrow> TaskRunWaitpoint" where
  "blocks r w = \<lparr>rw_taskRunId = r, rw_waitpointId = w, rw_projectId = ''p1''\<rparr>"

text \<open>
  Waitpoint 10 blocks the runs 1, 2 and 3. Run 1 waits to resume; run 2 is executing; run 3 is
  pending and waitpoint 11 blocks it as well.
\<close>

definition blockedEngine :: engine where
  "blockedEngine = emptyEngine
     \<lparr>taskRuns := [exampleRun 1 TR_WAITING_TO_RESUME, exampleRun 2 TR_EXECUTING,
                   exampleRun 3 TR_PENDING],
      snapshots := [exampleSnapshot 20 1 ES_BLOCKED_BY_WAITPOINTS TR_WAITING_TO_RESUME None,
                    exampleSnapshot 21 2 ES_EXECUTING TR_EXECUTING (Some 7),
                    exampleSnapshot 22 3 ES_BLOCKED_BY_WAITPOINTS TR_PENDING None],
      waitpoints := [exampleWaitpoint 10 WP_PENDING, exampleWaitpoint 11 WP_PENDING],
      taskRunWaitpoints := [blocks 1 10, blocks 2 10, blocks 3 10, blocks 3 11],
      nextId := 30\<rparr>"


text \<open>Waitpoint 10 is completed, waitpoint 11 is pending, and no run is blocked.\<close>

definition idleEngine :: engine where
  "idleEngine = emptyEngine
     \<lparr>taskRuns := [exampleRun 1 TR_PENDING],
      snapshots := [exampleSnapshot 20 1 ES_QUEUED TR_PENDING None],
      waitpoints := [exampleWaitpoint 10 WP_COMPLETED, exampleWaitpoint 11 WP_PENDING],
      nextId := 30\<rparr>"

text \<open>Run 1 has moved on from snapshot 20 to snapshot 21; the timer of snapshot 20 is pending.\<close>

definition movedOnEngine :: engine where
  "movedOnEngine = emptyEngine
     \<lparr>taskRuns := [exampleRun 1 TR_PENDING],
      snapshots := [exampleSnapshot 20 1 ES_QUEUED TR_PENDING None,
                    exampleSnapshot 21 1 ES_DEQUEUED_FOR_EXECUTION TR_PENDING None],
      workerJobs := [\<lparr>job_id = Some (heartbeatSnapshotId 20), job_request = heartbeatSnapshot 1 20,
                      job_availableAt = Some 900\<rparr>,
                     \<lparr>job_id = Some (heartbeatSnapshotId 21), job_request = heartbeatSnapshot 1 21,
                      job_availableAt = Some 61000\<rparr>],
      nextId := 30\<rparr>"

text \<open>A runner that holds attempt 1 of run \<^verbatim>\<open>run_1\<close> at snapshot \<^verbatim>\<open>snapshot_1\<close>.\<close>

definition runningController :: controller where
  "runningController =
     \<lparr>ctl_state = RUN \<lparr>run_friendlyId = ''run_1'', run_attemptNumber = Attempt 1\<rparr>
                       \<lparr>snapshot_friendlyId = ''snapshot_1''\<rparr>,
      handleSnapshotChangeLock = False, waitForNextRunLock = False, runHeartbeat = True,
      snapshotPoller = True, socketEmitted = [], taskRunProcess = Some ProcessRunning\<rparr>"

text \<open>The platform reports attempt 2 of the same run at a new snapshot.\<close>

definition nextAttemptData :: RunExecutionData where
  "nextAttemptData =
     \<lparr>ed_run = \<lparr>run_friendlyId = ''run_1'', run_attemptNumber = Attempt 2\<rparr>,
      ed_snapshot = \<lparr>snapshot_friendlyId = ''snapshot_2''\<rparr>,
      ed_executionStatus = ES_EXECUTING\<rparr>"

section \<open>Properties of the key producer\<close>

lemma replaceCk_no_colon:
  "CHR '':'' \<notin> set w \<Longrightarrow> replaceCk (w @ rest) = w @ replaceCk rest"
  by (induction w) (auto simp: ckMatchAt_def)

lemma ckMatchAt_segment:
  assumes "CHR '':'' \<notin> set seg" "seg \<noteq> ''ck''"
  shows "\<not> ckMatchAt (CHR '':'' # seg @ CHR '':'' # rest)"
proof
  assume "ckMatchAt (CHR '':'' # seg @ CHR '':'' # rest)"
  then have t: "take 3 (seg @ CHR '':'' # rest) = ''ck:''"
    by (simp add: ckMatchAt_def)
  show False
  proof (cases seg)
    case Nil
    with t show ?thesis by simp
  next
    case (Cons a as)
    note seg = Cons
    show ?thesis
    proof (cases as)
      case Nil
      with t seg show ?thesis by simp
    next
      case (Cons b bs)
      with t seg assms show ?thesis by (cases bs) simp_all
    qed
  qed
qed

lemma replaceCk_segment:
  "CHR '':'' \<notin> set seg \<Longrightarrow> seg \<noteq> ''ck'' \<Longrightarrow>
   replaceCk (CHR '':'' # seg @ CHR '':'' # rest) = CHR '':'' # seg @ replaceCk (CHR '':'' # rest)"
  using ckMatchAt_segment [of seg rest] by (simp add: replaceCk_no_colon)

lemma replaceCk_last_segment:
  assumes "CHR '':'' \<notin> set seg"
  shows "replaceCk (CHR '':'' # seg) = CHR '':'' # seg"
proof -
  have "\<not> ckMatchAt (CHR '':'' # seg)"
  proof
    assume "ckMatchAt (CHR '':'' # seg)"
    then have "take 3 seg = ''ck:''" by (simp add: ckMatchAt_def)
    then have "CHR '':'' \<in> set (take 3 seg)" by simp
    then show False using assms by (meson in_set_takeD)
  qed
  then show ?thesis using replaceCk_no_colon [of seg "[]"] assms by simp
qed

lemma replaceCk_other_char:
  "c \<noteq> CHR '':'' \<Longrightarrow> replaceCk (c # cs) = c # replaceCk cs"
  by (simp add: ckMatchAt_def)

lemma replaceCk_label:
  "c \<noteq> CHR ''c'' \<Longrightarrow> replaceCk (CHR '':'' # c # cs) = CHR '':'' # replaceCk (c # cs)"
  by (simp add: ckMatchAt_def)

lemma replaceCk_ck_suffix:
  "k \<noteq> [] \<Longrightarrow> list_all (\<lambda>c. \<not> isLineTerminator c) k \<Longrightarrow>
   replaceCk (CHR '':'' # CHR ''c'' # CHR ''k'' # CHR '':'' # k) = []"
  by (simp add: ckMatchAt_def)

lemmas replaceCk_rules =
  replaceCk_other_char replaceCk_label replaceCk_segment replaceCk_last_segment
  replaceCk_ck_suffix

lemmas key_defs =
  queueKey_def queueConcurrencyLimitKey_def concurrencyLimitKeyFromQueue_def
  orgKeySection_def projKeySection_def envTypeKeySection_def envKeySection_def
  queueSection_def concurrencyKeySection_def

text \<open>
  C8, as amended. For every environment, queue name and optional concurrency key in which the
  organisation id, the project id, the environment id, the queue name and the concurrency key
  contain no colon, and moreover none of the three ids is the text \<^verbatim>\<open>ck\<close>, the queue name is not
  \<^verbatim>\<open>ck\<close> when a non-empty concurrency key is given, and the concurrency key contains no line
  terminator: deriving the concurrency-limit key from the queue key gives the queue
  concurrency-limit key, \<open>concurrencyLimitKeyFromQueue (queueKey env q ck) =
  queueConcurrencyLimitKey env q\<close>.
\<close>

theorem concurrencyLimitKeyFromQueue_queueKey:
  assumes colon: "CHR '':'' \<notin> set (env_organizationId env)"
      "CHR '':'' \<notin> set (env_projectId env)" "CHR '':'' \<notin> set (env_id env)"
      "CHR '':'' \<notin> set queue" "\<forall>k \<in> set_option ck. CHR '':'' \<notin> set k"
    and ids: "env_organizationId env \<noteq> ''ck''" "env_projectId env \<noteq> ''ck''"
      "env_id env \<noteq> ''ck''"
    and qck: "queue = ''ck'' \<longrightarrow> ck = None \<or> ck = Some []"
    and lt: "\<forall>k \<in> set_option ck. list_all (\<lambda>c. \<not> isLineTerminator c) k"
  shows "concurrencyLimitKeyFromQueue (queueKey env queue ck) = queueConcurrencyLimitKey env queue"
proof (cases "\<exists>k. ck = Some k \<and> k \<noteq> []")
  case False
  then have "queueKey env queue ck = queueKey env queue None"
    by (cases ck) (auto simp: queueKey_def)
  moreover have
    "concurrencyLimitKeyFromQueue (queueKey env queue None) = queueConcurrencyLimitKey env queue"
    using colon ids unfolding key_defs
    by (simp add: replaceCk_rules del: replaceCk.simps)
  ultimately show ?thesis by simp
next
  case True
  then obtain k where k: "ck = Some k" "k \<noteq> []" by blast
  with qck have q: "queue \<noteq> ''ck''" by auto
  from k lt have l: "list_all (\<lambda>c. \<not> isLineTerminator c) k" by simp
  show ?thesis
    using colon ids q l k unfolding key_defs
    by (simp add: replaceCk_rules del: replaceCk.simps)
qed

text \<open>
  The theorem at the queue \<^verbatim>\<open>emails\<close> with the concurrency key \<^verbatim>\<open>user42\<close> of the environment
  \<open>env0\<close>: both sides are the key \<^verbatim>\<open>org:o1:proj:p1:envType:deployed:env:e1:queue:emails:concurrency\<close>.
\<close>

theorem concurrencyLimitKeyFromQueue_queueKey_witness:
  "concurrencyLimitKeyFromQueue (queueKey env0 ''emails'' (Some ''user42''))
     = queueConcurrencyLimitKey env0 ''emails''
   \<and> queueConcurrencyLimitKey env0 ''emails''
     = ''org:o1:proj:p1:envType:deployed:env:e1:queue:emails:concurrency''"
  using concurrencyLimitKeyFromQueue_queueKey [of env0 "''emails''" "Some ''user42''"]
  by (simp add: env0_def isLineTerminator_def key_defs)

text \<open>
  C8 as it is stated fails for the queue named \<^verbatim>\<open>ck\<close> with the concurrency key \<^verbatim>\<open>k\<close>: no id and
  neither name contains a colon, yet the queue key is
  \<^verbatim>\<open>org:o1:proj:p1:envType:deployed:env:e1:queue:ck:ck:k\<close>, in which the leftmost \<^verbatim>\<open>:ck:\<close> is the
  one that ends the queue section, and the derived key loses the queue name.
\<close>

theorem concurrencyLimitKeyFromQueue_queueKey_counterexample:
  "CHR '':'' \<notin> set (env_organizationId env0) \<and> CHR '':'' \<notin> set (env_projectId env0)
   \<and> CHR '':'' \<notin> set (env_id env0) \<and> CHR '':'' \<notin> set ''ck'' \<and> CHR '':'' \<notin> set ''k''
   \<and> concurrencyLimitKeyFromQueue (queueKey env0 ''ck'' (Some ''k''))
       = ''org:o1:proj:p1:envType:deployed:env:e1:queue:concurrency''
   \<and> queueConcurrencyLimitKey env0 ''ck''
       = ''org:o1:proj:p1:envType:deployed:env:e1:queue:ck:concurrency''
   \<and> concurrencyLimitKeyFromQueue (queueKey env0 ''ck'' (Some ''k''))
       \<noteq> queueConcurrencyLimitKey env0 ''ck''"
  by (simp add: key_defs env0_def ckMatchAt_def isLineTerminator_def)


section \<open>Properties of the waitpoint manager\<close>

subsection \<open>The concrete states\<close>

lemma emptyEngine_fields:
  "taskRuns emptyEngine = []" "snapshots emptyEngine = []" "waitpoints emptyEngine = []"
  "taskRunWaitpoints emptyEngine = []" "taskQueues emptyEngine = []" "workerJobs emptyEngine = []"
  "queueMessages emptyEngine = []" "queueConcurrencyLimits emptyEngine = []"
  "nextId emptyEngine = 0" "now emptyEngine = 1000"
  by (simp_all add: emptyEngine_def)

lemma exampleRun_fields [simp]:
  "tr_id (exampleRun i st) = i" "tr_status (exampleRun i st) = st"
  "tr_masterQueue (exampleRun i st) = ''m''" "tr_runtimeEnvironment (exampleRun i st) = env0"
  by (simp_all add: exampleRun_def)

lemma exampleSnapshot_fields [simp]:
  "snap_runId (exampleSnapshot j r es st w) = r" "snap_id (exampleSnapshot j r es st w) = j"
  "snap_executionStatus (exampleSnapshot j r es st w) = es"
  "snap_workerId (exampleSnapshot j r es st w) = w"
  by (simp_all add: exampleSnapshot_def)

lemma exampleWaitpoint_fields [simp]:
  "wp_id (exampleWaitpoint j ws) = j" "wp_status (exampleWaitpoint j ws) = ws"
  by (simp_all add: exampleWaitpoint_def)

lemma blocks_fields [simp]:
  "rw_taskRunId (blocks a b) = a" "rw_waitpointId (blocks a b) = b"
  by (simp_all add: blocks_def)

lemma exampleWaitpoint_completed [simp]:
  "(exampleWaitpoint j ws)\<lparr>wp_status := WP_COMPLETED\<rparr> = exampleWaitpoint j WP_COMPLETED"
  by (simp add: exampleWaitpoint_def)

lemma blockedEngine_fields:
  "taskRuns blockedEngine =
     [exampleRun 1 TR_WAITING_TO_RESUME, exampleRun 2 TR_EXECUTING, exampleRun 3 TR_PENDING]"
  "snapshots blockedEngine =
     [exampleSnapshot 20 1 ES_BLOCKED_BY_WAITPOINTS TR_WAITING_TO_RESUME None,
      exampleSnapshot 21 2 ES_EXECUTING TR_EXECUTING (Some 7),
      exampleSnapshot 22 3 ES_BLOCKED_BY_WAITPOINTS TR_PENDING None]"
  "waitpoints blockedEngine = [exampleWaitpoint 10 WP_PENDING, exampleWaitpoint 11 WP_PENDING]"
  "taskRunWaitpoints blockedEngine = [blocks 1 10, blocks 2 10, blocks 3 10, blocks 3 11]"
  "queueMessages blockedEngine = []"
  "nextId blockedEngine = 30"
  "now blockedEngine = 1000"
  by (simp_all add: blockedEngine_def emptyEngine_def)


lemma idleEngine_fields:
  "waitpoints idleEngine = [exampleWaitpoint 10 WP_COMPLETED, exampleWaitpoint 11 WP_PENDING]"
  "taskRunWaitpoints idleEngine = []"
  by (simp_all add: idleEngine_def emptyEngine_def)

lemmas completeWaitpoint_defs =
  completeWaitpoint_def transaction_def taskRunsToResume_def continueRun_def
  getLatestExecutionSnapshot_def createExecutionSnapshot_def startHeartbeating_def
  worker_enqueue_def enqueueMessage_def Let_def

lemma blockedEngine_completes: "snd (completeWaitpoint 10 blockedEngine) = Inr ()"
  by (simp add: blockedEngine_fields completeWaitpoint_defs)

subsection \<open>Continuing runs\<close>

lemma continueRun_continuable:
  assumes "continuable s run"
  shows "continueRun run env s =
     (s\<lparr>snapshots := snapshots s @ [queuedSnapshot run (nextId s)],
        nextId := Suc (nextId s),
        workerJobs := workerJobs s @
          [\<lparr>job_id = Some (heartbeatSnapshotId (nextId s)),
            job_request = heartbeatSnapshot (tr_id run) (nextId s),
            job_availableAt = Some (now s + 60 * 1000)\<rparr>],
        queueMessages := queueMessages s @ [(tr_masterQueue run, runMessage run env (now s))]\<rparr>,
      Inr ())"
  using assms
  by (auto simp: continuable_def continueRun_def getLatestExecutionSnapshot_def
      createExecutionSnapshot_def startHeartbeating_def worker_enqueue_def enqueueMessage_def
      queuedSnapshot_def Let_def split: option.splits)

lemma continuable_snoc:
  "continuable s run \<Longrightarrow>
   continuable (s\<lparr>snapshots := snapshots s @ [queuedSnapshot run' i], nextId := n,
                  workerJobs := js, queueMessages := ms\<rparr>) run"
  by (auto simp: continuable_def queuedSnapshot_def split: option.splits)

lemma continueRuns_continuable:
  "list_all (continuable s) runs \<Longrightarrow>
   \<exists>s'. continueRuns runs s = (s', Inr ())
      \<and> taskRuns s' = taskRuns s \<and> waitpoints s' = waitpoints s
      \<and> taskRunWaitpoints s' = taskRunWaitpoints s \<and> now s' = now s
      \<and> queueMessages s' = queueMessages s @
           map (\<lambda>run. (tr_masterQueue run, runMessage run (tr_runtimeEnvironment run) (now s))) runs
      \<and> map snapshotKey (snapshots s') =
           map snapshotKey (snapshots s) @ map (\<lambda>run. (tr_id run, ES_QUEUED)) runs"
proof (induction runs arbitrary: s)
  case Nil
  then show ?case by simp
next
  case (Cons run runs)
  from Cons.prems have c: "continuable s run" and cs: "list_all (continuable s) runs"
    by simp_all
  define s1 where "s1 = s\<lparr>snapshots := snapshots s @ [queuedSnapshot run (nextId s)],
        nextId := Suc (nextId s),
        workerJobs := workerJobs s @
          [\<lparr>job_id = Some (heartbeatSnapshotId (nextId s)),
            job_request = heartbeatSnapshot (tr_id run) (nextId s),
            job_availableAt = Some (now s + 60 * 1000)\<rparr>],
        queueMessages := queueMessages s @
          [(tr_masterQueue run, runMessage run (tr_runtimeEnvironment run) (now s))]\<rparr>"
  have step: "continueRun run (tr_runtimeEnvironment run) s = (s1, Inr ())"
    unfolding s1_def by (rule continueRun_continuable [OF c])
  have "list_all (continuable s1) runs"
    using cs unfolding s1_def by (simp add: list_all_iff continuable_snoc)
  from Cons.IH [OF this] obtain s' where
    s': "continueRuns runs s1 = (s', Inr ())"
        "taskRuns s' = taskRuns s1" "waitpoints s' = waitpoints s1"
        "taskRunWaitpoints s' = taskRunWaitpoints s1" "now s' = now s1"
        "queueMessages s' = queueMessages s1 @
           map (\<lambda>run. (tr_masterQueue run, runMessage run (tr_runtimeEnvironment run) (now s1))) runs"
        "map snapshotKey (snapshots s') =
           map snapshotKey (snapshots s1) @ map (\<lambda>run. (tr_id run, ES_QUEUED)) runs"
    by blast
  have "continueRuns (run # runs) s = (s', Inr ())"
    by (simp add: step s'(1))
  moreover have "taskRuns s' = taskRuns s" "waitpoints s' = waitpoints s"
      "taskRunWaitpoints s' = taskRunWaitpoints s" "now s' = now s"
    using s'(2-5) by (simp_all add: s1_def)
  moreover have "queueMessages s' = queueMessages s @
      map (\<lambda>run. (tr_masterQueue run, runMessage run (tr_runtimeEnvironment run) (now s)))
        (run # runs)"
    using s'(6) by (simp add: s1_def)
  moreover have "map snapshotKey (snapshots s') =
      map snapshotKey (snapshots s) @ map (\<lambda>run. (tr_id run, ES_QUEUED)) (run # runs)"
    using s'(7) by (simp add: s1_def snapshotKey_def queuedSnapshot_def)
  ultimately show ?case by blast
qed

lemma continueRun_keeps_tables:
  "continueRun run env s = (s', r) \<Longrightarrow>
   waitpoints s' = waitpoints s \<and> taskRunWaitpoints s' = taskRunWaitpoints s
   \<and> taskRuns s' = taskRuns s"
  by (auto simp: continueRun_def getLatestExecutionSnapshot_def createExecutionSnapshot_def
      startHeartbeating_def worker_enqueue_def enqueueMessage_def Let_def
      split: option.splits if_splits)

lemma continueRuns_keeps_tables:
  "continueRuns runs s = (s', r) \<Longrightarrow>
   waitpoints s' = waitpoints s \<and> taskRunWaitpoints s' = taskRunWaitpoints s
   \<and> taskRuns s' = taskRuns s"
proof (induction runs arbitrary: s)
  case Nil
  then show ?case by simp
next
  case (Cons run runs)
  obtain s1 r1 where step: "continueRun run (tr_runtimeEnvironment run) s = (s1, r1)"
    by (cases "continueRun run (tr_runtimeEnvironment run) s")
  note k = continueRun_keeps_tables [OF step]
  show ?case
  proof (cases r1)
    case (Inl e)
    with Cons.prems step have "s' = s1" by simp
    with k show ?thesis by simp
  next
    case (Inr u)
    with Cons.prems step have "continueRuns runs s1 = (s', r)" by simp
    from Cons.IH [OF this] k show ?thesis by simp
  qed
qed

lemma find_map_completed:
  "find (\<lambda>w. wp_id w = i) ws = Some w \<Longrightarrow>
   find (\<lambda>w. wp_id w = i) (map (\<lambda>w. if wp_id w = i then w\<lparr>wp_status := WP_COMPLETED\<rparr> else w) ws)
     = Some (w\<lparr>wp_status := WP_COMPLETED\<rparr>)"
  by (induction ws) (auto split: if_splits)

subsection \<open>Completing a waitpoint that blocks runs\<close>

text \<open>
  Where \<^verbatim>\<open>#continueRun\<close> does not throw, the runs are continued as the specification says. For
  every waitpoint \<open>w\<close> that is not yet \<^verbatim>\<open>COMPLETED\<close> and has at least one blocked run, such that
  every formerly-blocked run that is to be continued has a latest snapshot and is not executing
  on a worker: \<open>completeWaitpoint\<close> returns, deletes all \<^verbatim>\<open>RunWaitpoint\<close> rows of \<open>w\<close>, marks \<open>w\<close>
  \<^verbatim>\<open>COMPLETED\<close>, and continues exactly the formerly-blocked runs that afterwards have no
  \<^verbatim>\<open>RunWaitpoint\<close> row at all and whose status is \<^verbatim>\<open>PENDING\<close> or \<^verbatim>\<open>WAITING_TO_RESUME\<close>: for each of
  them, in the order of the table, one message goes to the run queue and one \<^verbatim>\<open>QUEUED\<close> snapshot
  is written, and for no other run.
\<close>

lemma completeWaitpoint_continues_continuable_runs:
  assumes w: "find (\<lambda>w. wp_id w = i) (waitpoints s) = Some w"
    and pending: "wp_status w \<noteq> WP_COMPLETED"
    and blocked: "\<exists>rw \<in> set (taskRunWaitpoints s). rw_waitpointId rw = i"
    and cont: "\<forall>run \<in> set (taskRuns s).
                 (\<exists>rw \<in> set (taskRunWaitpoints s). rw_taskRunId rw = tr_id run \<and> rw_waitpointId rw = i)
                 \<and> (\<forall>rw \<in> set (taskRunWaitpoints s). rw_taskRunId rw = tr_id run \<longrightarrow> rw_waitpointId rw = i)
                 \<and> tr_status run \<in> {TR_PENDING, TR_WAITING_TO_RESUME}
                 \<longrightarrow> continuable s run"
  shows "\<exists>s'. completeWaitpoint i s = (s', Inr ())
           \<and> taskRunWaitpoints s' = filter (\<lambda>rw. rw_waitpointId rw \<noteq> i) (taskRunWaitpoints s)
           \<and> find (\<lambda>w. wp_id w = i) (waitpoints s') = Some (w\<lparr>wp_status := WP_COMPLETED\<rparr>)
           \<and> taskRuns s' = taskRuns s
           \<and> queueMessages s' = queueMessages s @
                map (\<lambda>run. (tr_masterQueue run, runMessage run (tr_runtimeEnvironment run) (now s)))
                  (spec_runsToContinue i s s')
           \<and> map snapshotKey (snapshots s') = map snapshotKey (snapshots s) @
                map (\<lambda>run. (tr_id run, ES_QUEUED)) (spec_runsToContinue i s s')"
proof -
  define affected where
    "affected = map rw_taskRunId (filter (\<lambda>rw. rw_waitpointId rw = i) (taskRunWaitpoints s))"
  define tx2 where
    "tx2 = s\<lparr>taskRunWaitpoints := filter (\<lambda>rw. rw_waitpointId rw \<noteq> i) (taskRunWaitpoints s),
             waitpoints := map (\<lambda>w. if wp_id w = i then w\<lparr>wp_status := WP_COMPLETED\<rparr> else w)
                             (waitpoints s)\<rparr>"
  define runs where "runs = taskRunsToResume affected tx2"
  have mem: "x \<in> set affected \<longleftrightarrow>
      (\<exists>rw \<in> set (taskRunWaitpoints s). rw_taskRunId rw = x \<and> rw_waitpointId rw = i)" for x
    unfolding affected_def by force
  have free: "list_all (\<lambda>rw. rw_taskRunId rw \<noteq> x) (taskRunWaitpoints tx2) \<longleftrightarrow>
      (\<forall>rw \<in> set (taskRunWaitpoints s). rw_taskRunId rw = x \<longrightarrow> rw_waitpointId rw = i)" for x
    unfolding tx2_def list_all_iff by auto
  from blocked have ne: "affected \<noteq> []"
    by (auto simp: affected_def filter_empty_conv)
  have "list_all (continuable s) runs"
    unfolding list_all_iff
  proof
    fix run
    assume "run \<in> set runs"
    then have "run \<in> set (taskRuns s)"
      and "\<exists>rw \<in> set (taskRunWaitpoints s). rw_taskRunId rw = tr_id run \<and> rw_waitpointId rw = i"
      and "\<forall>rw \<in> set (taskRunWaitpoints s). rw_taskRunId rw = tr_id run \<longrightarrow> rw_waitpointId rw = i"
      and "tr_status run \<in> {TR_PENDING, TR_WAITING_TO_RESUME}"
      by (simp_all add: runs_def taskRunsToResume_def mem free) (simp_all add: tx2_def)
    with cont show "continuable s run" by blast
  qed
  then have "list_all (continuable tx2) runs"
    by (simp add: list_all_iff continuable_def tx2_def)
  from continueRuns_continuable [OF this] obtain s' where
    s': "continueRuns runs tx2 = (s', Inr ())"
        "taskRuns s' = taskRuns tx2" "waitpoints s' = waitpoints tx2"
        "taskRunWaitpoints s' = taskRunWaitpoints tx2" "now s' = now tx2"
        "queueMessages s' = queueMessages tx2 @
           map (\<lambda>run. (tr_masterQueue run, runMessage run (tr_runtimeEnvironment run) (now tx2))) runs"
        "map snapshotKey (snapshots s') =
           map snapshotKey (snapshots tx2) @ map (\<lambda>run. (tr_id run, ES_QUEUED)) runs"
    by blast
  have run: "completeWaitpoint i s = (s', Inr ())"
    using w pending ne s'(1)
    unfolding completeWaitpoint_def transaction_def runs_def affected_def tx2_def
    by (simp add: Let_def)
  have rows: "taskRunWaitpoints s' = filter (\<lambda>rw. rw_waitpointId rw \<noteq> i) (taskRunWaitpoints s)"
    using s'(4) by (simp add: tx2_def)
  have same: "runs = spec_runsToContinue i s s'"
    unfolding runs_def taskRunsToResume_def spec_runsToContinue_def rows
  proof (rule filter_cong)
    fix run
    have "(\<forall>rw \<in> set (filter (\<lambda>rw. rw_waitpointId rw \<noteq> i) (taskRunWaitpoints s)).
             rw_taskRunId rw \<noteq> tr_id run)
          \<longleftrightarrow> list_all (\<lambda>rw. rw_taskRunId rw \<noteq> tr_id run) (taskRunWaitpoints tx2)"
      by (simp add: tx2_def list_all_iff)
    then show "(tr_id run \<in> set affected
          \<and> list_all (\<lambda>rw. rw_taskRunId rw \<noteq> tr_id run) (taskRunWaitpoints tx2)
          \<and> (tr_status run = TR_PENDING \<or> tr_status run = TR_WAITING_TO_RESUME))
       = ((\<exists>rw \<in> set (taskRunWaitpoints s). rw_taskRunId rw = tr_id run \<and> rw_waitpointId rw = i)
          \<and> (\<forall>rw \<in> set (filter (\<lambda>rw. rw_waitpointId rw \<noteq> i) (taskRunWaitpoints s)).
                rw_taskRunId rw \<noteq> tr_id run)
          \<and> tr_status run \<in> {TR_PENDING, TR_WAITING_TO_RESUME})"
      by (simp add: mem)
  qed (simp add: tx2_def)
  have "find (\<lambda>w. wp_id w = i) (waitpoints s') = Some (w\<lparr>wp_status := WP_COMPLETED\<rparr>)"
    using s'(3) find_map_completed [OF w] by (simp add: tx2_def)
  moreover have "taskRuns s' = taskRuns s"
    using s'(2) by (simp add: tx2_def)
  moreover have "queueMessages s' = queueMessages s @
      map (\<lambda>run. (tr_masterQueue run, runMessage run (tr_runtimeEnvironment run) (now s)))
        (spec_runsToContinue i s s')"
    using s'(6) same by (simp add: tx2_def)
  moreover have "map snapshotKey (snapshots s') = map snapshotKey (snapshots s) @
      map (\<lambda>run. (tr_id run, ES_QUEUED)) (spec_runsToContinue i s s')"
    using s'(7) same by (simp add: tx2_def)
  ultimately show ?thesis using run rows by blast
qed

text \<open>
  At waitpoint 10 of \<open>blockedEngine\<close>: the three rows of the waitpoint are deleted,
  the waitpoint is completed, and of the three runs it blocked only run 1 is continued (run 2
  is executing, run 3 is still blocked by waitpoint 11).
\<close>

lemma completeWaitpoint_continues_continuable_runs_example:
  "\<exists>s'. completeWaitpoint 10 blockedEngine = (s', Inr ())
      \<and> taskRunWaitpoints s' = [blocks 3 11]
      \<and> find (\<lambda>w. wp_id w = 10) (waitpoints s') = Some (exampleWaitpoint 10 WP_COMPLETED)
      \<and> map (\<lambda>m. msg_runId (snd m)) (queueMessages s') = [1]
      \<and> map snapshotKey (snapshots s') =
          [(1, ES_BLOCKED_BY_WAITPOINTS), (2, ES_EXECUTING), (3, ES_BLOCKED_BY_WAITPOINTS),
           (1, ES_QUEUED)]"
proof -
  have h1: "find (\<lambda>w. wp_id w = 10) (waitpoints blockedEngine) = Some (exampleWaitpoint 10 WP_PENDING)"
    by (simp add: blockedEngine_fields)
  have h2: "wp_status (exampleWaitpoint 10 WP_PENDING) \<noteq> WP_COMPLETED"
    by simp
  have h3: "\<exists>rw \<in> set (taskRunWaitpoints blockedEngine). rw_waitpointId rw = 10"
    by (simp add: blockedEngine_fields)
  have h4: "\<forall>run \<in> set (taskRuns blockedEngine).
      (\<exists>rw \<in> set (taskRunWaitpoints blockedEngine). rw_taskRunId rw = tr_id run \<and> rw_waitpointId rw = 10)
      \<and> (\<forall>rw \<in> set (taskRunWaitpoints blockedEngine). rw_taskRunId rw = tr_id run \<longrightarrow> rw_waitpointId rw = 10)
      \<and> tr_status run \<in> {TR_PENDING, TR_WAITING_TO_RESUME}
      \<longrightarrow> continuable blockedEngine run"
    by (simp add: blockedEngine_fields continuable_def)
  from completeWaitpoint_continues_continuable_runs [OF h1 h2 h3 h4] obtain s' where
    s': "completeWaitpoint 10 blockedEngine = (s', Inr ())"
        "taskRunWaitpoints s' = filter (\<lambda>rw. rw_waitpointId rw \<noteq> 10) (taskRunWaitpoints blockedEngine)"
        "find (\<lambda>w. wp_id w = 10) (waitpoints s')
           = Some ((exampleWaitpoint 10 WP_PENDING)\<lparr>wp_status := WP_COMPLETED\<rparr>)"
        "queueMessages s' = queueMessages blockedEngine @
           map (\<lambda>run. (tr_masterQueue run, runMessage run (tr_runtimeEnvironment run) (now blockedEngine)))
             (spec_runsToContinue 10 blockedEngine s')"
        "map snapshotKey (snapshots s') = map snapshotKey (snapshots blockedEngine) @
           map (\<lambda>run. (tr_id run, ES_QUEUED)) (spec_runsToContinue 10 blockedEngine s')"
    by blast
  have rows: "taskRunWaitpoints s' = [blocks 3 11]"
    using s'(2) by (simp add: blockedEngine_fields)
  have runs: "spec_runsToContinue 10 blockedEngine s' = [exampleRun 1 TR_WAITING_TO_RESUME]"
    by (simp add: spec_runsToContinue_def rows blockedEngine_fields)
  have "map (\<lambda>m. msg_runId (snd m)) (queueMessages s') = [1]"
    using s'(4) by (simp add: runs blockedEngine_fields runMessage_def)
  moreover have "map snapshotKey (snapshots s') =
      [(1, ES_BLOCKED_BY_WAITPOINTS), (2, ES_EXECUTING), (3, ES_BLOCKED_BY_WAITPOINTS),
       (1, ES_QUEUED)]"
    using s'(5) by (simp add: runs blockedEngine_fields snapshotKey_def)
  ultimately show ?thesis using s'(1,3) rows by simp
qed


subsection \<open>Completing a waitpoint twice\<close>

text \<open>
  C9. \<open>completeWaitpoint\<close> is idempotent: for a waitpoint whose status is already \<^verbatim>\<open>COMPLETED\<close> it
  returns and the state, with every waitpoint, \<^verbatim>\<open>RunWaitpoint\<close>, run and queue in it, is the state
  before the call; and so a second call after a call that returned has no effect.
\<close>

theorem completeWaitpoint_idempotent:
  "(find (\<lambda>w. wp_id w = i) (waitpoints s) = Some w \<and> wp_status w = WP_COMPLETED
      \<longrightarrow> completeWaitpoint i s = (s, Inr ()))
   \<and> (completeWaitpoint i s = (s', Inr ()) \<longrightarrow> completeWaitpoint i s' = (s', Inr ()))"
proof (intro conjI impI)
  assume "find (\<lambda>w. wp_id w = i) (waitpoints s) = Some w \<and> wp_status w = WP_COMPLETED"
  then show "completeWaitpoint i s = (s, Inr ())"
    by (simp add: completeWaitpoint_def)
next
  assume ok: "completeWaitpoint i s = (s', Inr ())"
  show "completeWaitpoint i s' = (s', Inr ())"
  proof (cases "find (\<lambda>w. wp_id w = i) (waitpoints s)")
    case None
    with ok show ?thesis by (simp add: completeWaitpoint_def)
  next
    case (Some w)
    show ?thesis
    proof (cases "wp_status w = WP_COMPLETED")
      case True
      with Some ok have "s' = s" by (simp add: completeWaitpoint_def)
      with Some True show ?thesis by (simp add: completeWaitpoint_def)
    next
      case False
      define tx2 where
        "tx2 = s\<lparr>taskRunWaitpoints := filter (\<lambda>rw. rw_waitpointId rw \<noteq> i) (taskRunWaitpoints s),
                 waitpoints := map (\<lambda>w. if wp_id w = i then w\<lparr>wp_status := WP_COMPLETED\<rparr> else w)
                                 (waitpoints s)\<rparr>"
      from ok Some False obtain runs where "continueRuns runs tx2 = (s', Inr ())"
        unfolding completeWaitpoint_def transaction_def tx2_def
        by (auto simp: Let_def split: if_splits prod.splits sum.splits)
      from continueRuns_keeps_tables [OF this] have "waitpoints s' = waitpoints tx2" by simp
      then have "find (\<lambda>w. wp_id w = i) (waitpoints s') = Some (w\<lparr>wp_status := WP_COMPLETED\<rparr>)"
        using find_map_completed [OF Some] by (simp add: tx2_def)
      then show ?thesis by (simp add: completeWaitpoint_def)
    qed
  qed
qed

text \<open>
  The theorem at the completed waitpoint 10 of \<open>idleEngine\<close>, and at the second call for
  waitpoint 10 of \<open>blockedEngine\<close> after the first one has completed it.
\<close>

theorem completeWaitpoint_idempotent_witness:
  "completeWaitpoint 10 idleEngine = (idleEngine, Inr ())
   \<and> snd (completeWaitpoint 10 blockedEngine) = Inr ()
   \<and> completeWaitpoint 10 (fst (completeWaitpoint 10 blockedEngine))
       = (fst (completeWaitpoint 10 blockedEngine), Inr ())"
proof -
  have "find (\<lambda>w. wp_id w = 10) (waitpoints idleEngine) = Some (exampleWaitpoint 10 WP_COMPLETED)
        \<and> wp_status (exampleWaitpoint 10 WP_COMPLETED) = WP_COMPLETED"
    by (simp add: idleEngine_fields)
  with completeWaitpoint_idempotent [of 10 idleEngine "exampleWaitpoint 10 WP_COMPLETED"]
  have first: "completeWaitpoint 10 idleEngine = (idleEngine, Inr ())"
    by blast
  have "completeWaitpoint 10 blockedEngine = (fst (completeWaitpoint 10 blockedEngine), Inr ())"
    using blockedEngine_completes by (simp add: prod_eq_iff)
  with completeWaitpoint_idempotent
         [of 10 blockedEngine _ "fst (completeWaitpoint 10 blockedEngine)"]
  have "completeWaitpoint 10 (fst (completeWaitpoint 10 blockedEngine))
          = (fst (completeWaitpoint 10 blockedEngine), Inr ())"
    by blast
  with first blockedEngine_completes show ?thesis by simp
qed

subsection \<open>Completing a waitpoint that blocks no run\<close>

text \<open>
  C10. For every waitpoint \<open>w\<close> with status \<^verbatim>\<open>PENDING\<close> on which no run is blocked (there is no
  \<^verbatim>\<open>RunWaitpoint\<close> row for \<open>w\<close>), \<open>completeWaitpoint\<close> throws an error, and the state after the
  rolled-back transaction is the state before the call: \<open>w\<close> is still \<^verbatim>\<open>PENDING\<close>.
\<close>

theorem completeWaitpoint_no_blocked_runs_fails:
  assumes "find (\<lambda>w. wp_id w = i) (waitpoints s) = Some w"
    and "wp_status w = WP_PENDING"
    and "\<forall>rw \<in> set (taskRunWaitpoints s). rw_waitpointId rw \<noteq> i"
  shows "completeWaitpoint i s = (s, Inl (NoTaskRunWaitpointsFound i))
         \<and> find (\<lambda>w. wp_id w = i) (waitpoints (fst (completeWaitpoint i s))) = Some w"
proof -
  from assms(3) have "filter (\<lambda>rw. rw_waitpointId rw = i) (taskRunWaitpoints s) = []"
    by (simp add: filter_empty_conv)
  then have "completeWaitpoint i s = (s, Inl (NoTaskRunWaitpointsFound i))"
    using assms(1,2) by (simp add: completeWaitpoint_def transaction_def)
  then show ?thesis using assms(1) by simp
qed

text \<open>The theorem at the pending waitpoint 11 of \<open>idleEngine\<close>, which blocks no run.\<close>

theorem completeWaitpoint_no_blocked_runs_fails_witness:
  "completeWaitpoint 11 idleEngine = (idleEngine, Inl (NoTaskRunWaitpointsFound 11))
   \<and> find (\<lambda>w. wp_id w = 11) (waitpoints (fst (completeWaitpoint 11 idleEngine)))
       = Some (exampleWaitpoint 11 WP_PENDING)"
proof -
  have h1: "find (\<lambda>w. wp_id w = 11) (waitpoints idleEngine) = Some (exampleWaitpoint 11 WP_PENDING)"
    by (simp add: idleEngine_fields)
  have h2: "wp_status (exampleWaitpoint 11 WP_PENDING) = WP_PENDING"
    by simp
  have h3: "\<forall>rw \<in> set (taskRunWaitpoints idleEngine). rw_waitpointId rw \<noteq> 11"
    by (simp add: idleEngine_fields)
  show ?thesis
    by (rule completeWaitpoint_no_blocked_runs_fails [OF h1 h2 h3])
qed


section \<open>Properties of the snapshot log\<close>

subsection \<open>Stall-check jobs\<close>

text \<open>
  C5, as amended. Every snapshot that \<^verbatim>\<open>#createExecutionSnapshot\<close> creates with one of the six
  execution statuses below is appended to the snapshot table and schedules exactly one delayed
  stall-check job, for that snapshot, whose delay is determined by the execution status:
  60 seconds for \<^verbatim>\<open>RUN_CREATED\<close>, \<^verbatim>\<open>QUEUED\<close>, \<^verbatim>\<open>BLOCKED_BY_WAITPOINTS\<close>, \<^verbatim>\<open>DEQUEUED_FOR_EXECUTION\<close> and
  \<^verbatim>\<open>FINISHED\<close>, and 15 minutes for \<^verbatim>\<open>EXECUTING\<close>.
\<close>

theorem createExecutionSnapshot_schedules_stall_check:
  "(executionStatus \<in> {ES_RUN_CREATED, ES_QUEUED, ES_BLOCKED_BY_WAITPOINTS,
                        ES_DEQUEUED_FOR_EXECUTION, ES_FINISHED}
      \<longrightarrow> workerJobs (snd (createExecutionSnapshot runId runStatus executionStatus d s))
            = workerJobs s @
                [\<lparr>job_id = Some (heartbeatSnapshotId (nextId s)),
                  job_request = heartbeatSnapshot runId (nextId s),
                  job_availableAt = Some (now s + 60 * 1000)\<rparr>])
   \<and> (executionStatus = ES_EXECUTING
      \<longrightarrow> workerJobs (snd (createExecutionSnapshot runId runStatus executionStatus d s))
            = workerJobs s @
                [\<lparr>job_id = Some (heartbeatSnapshotId (nextId s)),
                  job_request = heartbeatSnapshot runId (nextId s),
                  job_availableAt = Some (now s + 15 * 60 * 1000)\<rparr>])
   \<and> snap_id (fst (createExecutionSnapshot runId runStatus executionStatus d s)) = nextId s
   \<and> snap_executionStatus (fst (createExecutionSnapshot runId runStatus executionStatus d s))
        = executionStatus
   \<and> snapshots (snd (createExecutionSnapshot runId runStatus executionStatus d s))
        = snapshots s @ [fst (createExecutionSnapshot runId runStatus executionStatus d s)]"
  by (cases executionStatus)
     (simp_all add: createExecutionSnapshot_def startHeartbeating_def worker_enqueue_def Let_def)

text \<open>
  The theorem at a \<^verbatim>\<open>QUEUED\<close> and at an \<^verbatim>\<open>EXECUTING\<close> snapshot of run 5, created in the empty state
  when the clock reads 1000: the jobs are available at 61000 and at 901000.
\<close>

theorem createExecutionSnapshot_schedules_stall_check_witness:
  "workerJobs (snd (createExecutionSnapshot 5 TR_PENDING ES_QUEUED ''Run was QUEUED'' emptyEngine))
     = [\<lparr>job_id = Some (heartbeatSnapshotId 0), job_request = heartbeatSnapshot 5 0,
         job_availableAt = Some 61000\<rparr>]
   \<and> workerJobs (snd (createExecutionSnapshot 5 TR_EXECUTING ES_EXECUTING ''started'' emptyEngine))
     = [\<lparr>job_id = Some (heartbeatSnapshotId 0), job_request = heartbeatSnapshot 5 0,
         job_availableAt = Some 901000\<rparr>]"
  using createExecutionSnapshot_schedules_stall_check
          [of ES_QUEUED 5 TR_PENDING "''Run was QUEUED''" emptyEngine]
        createExecutionSnapshot_schedules_stall_check
          [of ES_EXECUTING 5 TR_EXECUTING "''started''" emptyEngine]
  by (simp add: emptyEngine_fields)

subsection \<open>Stale stall-check jobs\<close>

text \<open>
  As the method is written, the lookup of the latest snapshot raises a \<^verbatim>\<open>TypeError\<close> for every
  run and snapshot, before anything is read or written: the handler never compares snapshot
  ids and never acknowledges a job.
\<close>

lemma handleStalledSnapshot_raises:
  "handleStalledSnapshot runId snapshotId s = (s, Inl TypeError)"
  by (simp add: handleStalledSnapshot_def getLatestExecutionSnapshot_def)

text \<open>
  The statements that follow the lookup do what the specification says of a stale timer, when
  they are given a latest snapshot other than the one the job was scheduled for: they
  acknowledge the job, return, and change no run, snapshot, waitpoint or queue state.
\<close>

lemma handleStalledSnapshot_latest_stale:
  assumes "snap_id latest \<noteq> snapshotId"
  shows "handleStalledSnapshot_latest (Some latest) runId snapshotId s
           = (worker_ack (heartbeatSnapshotId snapshotId) s, Inr ())
         \<and> sameRunState s (worker_ack (heartbeatSnapshotId snapshotId) s)"
  using assms by (simp add: handleStalledSnapshot_latest_def sameRunState_def worker_ack_def)

lemma movedOnEngine_fields:
  "snapshots movedOnEngine =
     [exampleSnapshot 20 1 ES_QUEUED TR_PENDING None,
      exampleSnapshot 21 1 ES_DEQUEUED_FOR_EXECUTION TR_PENDING None]"
  "workerJobs movedOnEngine =
     [\<lparr>job_id = Some (heartbeatSnapshotId 20), job_request = heartbeatSnapshot 1 20,
       job_availableAt = Some 900\<rparr>,
      \<lparr>job_id = Some (heartbeatSnapshotId 21), job_request = heartbeatSnapshot 1 21,
       job_availableAt = Some 61000\<rparr>]"
  by (simp_all add: movedOnEngine_def emptyEngine_def)

text \<open>
  C6, evaluated where it fails. The claim is that a stall-check job whose snapshot is no longer
  the latest snapshot of its run is silently dropped: no recovery action, no change of run,
  snapshot, waitpoint or queue state. In \<open>movedOnEngine\<close> the snapshots of run 1 are 20 and 21,
  and the stall-check of snapshot 20 fires. The handler does not drop the timer: it fails with
  the \<^verbatim>\<open>TypeError\<close> of its lookup, and the job of snapshot 20 is still held by the worker,
  unacknowledged, beside the job of snapshot 21.
\<close>

theorem handleStalledSnapshot_stale_timer_not_dropped:
  "snapshots movedOnEngine =
     [exampleSnapshot 20 1 ES_QUEUED TR_PENDING None,
      exampleSnapshot 21 1 ES_DEQUEUED_FOR_EXECUTION TR_PENDING None]
   \<and> handleStalledSnapshot 1 20 movedOnEngine = (movedOnEngine, Inl TypeError)
   \<and> workerJobs (fst (handleStalledSnapshot 1 20 movedOnEngine)) =
     [\<lparr>job_id = Some (heartbeatSnapshotId 20), job_request = heartbeatSnapshot 1 20,
       job_availableAt = Some 900\<rparr>,
      \<lparr>job_id = Some (heartbeatSnapshotId 21), job_request = heartbeatSnapshot 1 21,
       job_availableAt = Some 61000\<rparr>]"
  by (simp add: handleStalledSnapshot_raises movedOnEngine_fields)


section \<open>Properties of trigger\<close>

subsection \<open>The blocks of the locked callback\<close>

lemma trigger_blockParent_blocked:
  "tp_resumeParentOnCompletion p = Some True \<Longrightarrow> tp_parentTaskRunId p = Some parentRunId \<Longrightarrow>
   trigger_blockParent p w s = (s, Inl (NotImplementedError ''Not implemented #blockRunWithWaitpoint''))"
  by (simp add: trigger_blockParent_def blockRunWithWaitpoint_def)

lemma trigger_blockParent_free:
  "\<not> (tp_resumeParentOnCompletion p = Some True \<and> tp_parentTaskRunId p \<noteq> None) \<Longrightarrow>
   trigger_blockParent p w s = (s, Inr ())"
  by (auto simp: trigger_blockParent_def split: option.splits bool.splits)

lemma trigger_blockParent_state: "fst (trigger_blockParent p w s) = s"
  by (auto simp: trigger_blockParent_def blockRunWithWaitpoint_def split: option.splits bool.splits)

lemma keepsRuns_refl: "keepsRuns s s"
  by (simp add: keepsRuns_def)

lemma keepsRuns_trans: "keepsRuns s t \<Longrightarrow> keepsRuns t u \<Longrightarrow> keepsRuns s u"
  by (simp add: keepsRuns_def)

lemma trigger_queue_keeps:
  "keepsRuns s (trigger_queue p s)
   \<and> taskRunWaitpoints (trigger_queue p s) = taskRunWaitpoints s
   \<and> queueMessages (trigger_queue p s) = queueMessages s
   \<and> workerJobs (trigger_queue p s) = workerJobs s
   \<and> waitpoints (trigger_queue p s) = waitpoints s
   \<and> now (trigger_queue p s) = now s"
  by (simp add: trigger_queue_def keepsRuns_def updateQueueConcurrencyLimits_def
      removeQueueConcurrencyLimits_def Let_def split: option.splits prod.splits)

lemma trigger_delay_keeps:
  "keepsRuns s (trigger_delay p r s) \<and> queueMessages (trigger_delay p r s) = queueMessages s
   \<and> (tr_delayUntil r = None \<longrightarrow> trigger_delay p r s = s)"
  by (simp add: trigger_delay_def keepsRuns_def createDateTimeWaitpoint_def worker_enqueue_def
      Let_def split: option.splits)

lemma trigger_ttl_keeps:
  "keepsRuns s (trigger_ttl P r s) \<and> queueMessages (trigger_ttl P r s) = queueMessages s
   \<and> taskRunWaitpoints (trigger_ttl P r s) = taskRunWaitpoints s"
  by (simp add: trigger_ttl_def keepsRuns_def worker_enqueue_def split: option.splits)

lemma trigger_enqueue_keeps:
  "keepsRuns s (trigger_enqueue p r s)
   \<and> taskRunWaitpoints (trigger_enqueue p r s) = taskRunWaitpoints s"
  by (simp add: trigger_enqueue_def keepsRuns_def enqueueRun_def createExecutionSnapshot_def
      startHeartbeating_def worker_enqueue_def enqueueMessage_def isInitial_def Let_def)

lemma createRunAssociatedWaitpoint_keeps:
  "keepsRuns s (snd (createRunAssociatedWaitpoint projectId runId s))"
  by (simp add: createRunAssociatedWaitpoint_def keepsRuns_def Let_def)

lemma trigger_locked_keeps: "keepsRuns s (fst (trigger_locked P p r s))"
proof -
  define s1 where "s1 = snd (createRunAssociatedWaitpoint (env_projectId (tp_environment p)) (tr_id r) s)"
  define w where "w = fst (createRunAssociatedWaitpoint (env_projectId (tp_environment p)) (tr_id r) s)"
  have k1: "keepsRuns s s1"
    unfolding s1_def by (rule createRunAssociatedWaitpoint_keeps)
  have unfold: "trigger_locked P p r s =
      (case trigger_blockParent p w s1 of
         (s2, Inl e) \<Rightarrow> (s2, Inl e)
       | (s2, Inr _) \<Rightarrow>
           (trigger_enqueue p r (trigger_ttl P r (trigger_delay p r (trigger_queue p s2))), Inr ()))"
    by (simp add: trigger_locked_def s1_def w_def split_beta)
  obtain res where b: "trigger_blockParent p w s1 = (s1, res)"
    using trigger_blockParent_state [of p w s1] by (cases "trigger_blockParent p w s1") simp
  show ?thesis
  proof (cases res)
    case (Inl e)
    with unfold b k1 show ?thesis by simp
  next
    case (Inr u)
    have "keepsRuns s1 (trigger_enqueue p r (trigger_ttl P r (trigger_delay p r (trigger_queue p s1))))"
      using trigger_queue_keeps [of s1 p]
        trigger_delay_keeps [of "trigger_queue p s1" p r]
        trigger_ttl_keeps [of "trigger_delay p r (trigger_queue p s1)" P r]
        trigger_enqueue_keeps [of "trigger_ttl P r (trigger_delay p r (trigger_queue p s1))" p r]
      by (meson keepsRuns_trans)
    with unfold b k1 Inr show ?thesis by (simp add: keepsRuns_trans)
  qed
qed

lemma trigger_rejected:
  "\<not> A (taskRuns s) (newTaskRun (initialStatus p) p (nextId s))
   \<Longrightarrow> trigger A P p s = (s, Inl DatabaseError)"
  by (simp add: trigger_def taskRun_create_def Let_def)

text \<open>The state in which the callback starts when the table has taken the new row.\<close>

lemma trigger_accepted:
  assumes "A (taskRuns s) (newTaskRun (initialStatus p) p (nextId s))"
  shows "trigger A P p s =
     (case trigger_locked P p
             (newTaskRun (initialStatus p) p (nextId s))
             (s\<lparr>taskRuns := taskRuns s @
                   [newTaskRun (initialStatus p) p (nextId s)],
                snapshots := snapshots s @
                   [initialSnapshot
                      (newTaskRun (initialStatus p) p (nextId s))
                      (Suc (nextId s))],
                nextId := Suc (Suc (nextId s))\<rparr>) of
        (s2, Inl e) \<Rightarrow> (s2, Inl e)
      | (s2, Inr _) \<Rightarrow>
          (s2, Inr (newTaskRun (initialStatus p) p (nextId s))))"
  using assms by (simp add: trigger_def taskRun_create_def Let_def)

lemma trigger_returns:
  assumes "trigger A P p s = (s', Inr r)"
  shows "r = newTaskRun (initialStatus p) p (nextId s)"
    and "taskRuns s' = taskRuns s @ [r]"
    and "nextId s < nextId s'"
    and "filter isInitial (snapshots s') =
           filter isInitial (snapshots s) @ [initialSnapshot r (Suc (nextId s))]"
proof -
  let ?r = "newTaskRun (initialStatus p) p (nextId s)"
  let ?s1 = "s\<lparr>taskRuns := taskRuns s @ [?r],
                snapshots := snapshots s @ [initialSnapshot ?r (Suc (nextId s))],
                nextId := Suc (Suc (nextId s))\<rparr>"
  have acc: "A (taskRuns s) ?r"
    using assms trigger_rejected [of A s p P] by fastforce
  obtain s2 res where l: "trigger_locked P p ?r ?s1 = (s2, res)"
    by (cases "trigger_locked P p ?r ?s1")
  from assms l have res: "s' = s2" "r = ?r"
    unfolding trigger_accepted [where A = A and s = s and p = p and P = P, OF acc]
    by (cases res; simp)+
  from trigger_locked_keeps [of ?s1 P p ?r] l have k: "keepsRuns ?s1 s2"
    by simp
  show "r = ?r" by (rule res(2))
  show "taskRuns s' = taskRuns s @ [r]"
    using k res by (simp add: keepsRuns_def)
  show "nextId s < nextId s'"
    using k res by (simp add: keepsRuns_def)
  show "filter isInitial (snapshots s') =
          filter isInitial (snapshots s) @ [initialSnapshot r (Suc (nextId s))]"
    using k res by (simp add: keepsRuns_def isInitial_def initialSnapshot_def)
qed

lemma trigger_succeeds:
  assumes "A (taskRuns s) (newTaskRun (initialStatus p) p (nextId s))"
    and "\<not> (tp_resumeParentOnCompletion p = Some True \<and> tp_parentTaskRunId p \<noteq> None)"
  shows "snd (trigger A P p s)
           = Inr (newTaskRun (initialStatus p) p (nextId s))"
  unfolding trigger_accepted [where A = A and s = s and p = p and P = P, OF assms(1)]
  by (simp add: trigger_locked_def trigger_blockParent_free [OF assms(2)] split_beta)

subsection \<open>The concrete requests\<close>

lemma helloParams_fields:
  "initialStatus helloParams = TR_PENDING"
  "tp_environment helloParams = env0" "tp_idempotencyKey helloParams = Some ''k''"
  "tp_queue helloParams = None" "tp_delayUntil helloParams = None" "tp_ttl helloParams = None"
  "tp_parentTaskRunId helloParams = None" "tp_resumeParentOnCompletion helloParams = None"
  "tp_masterQueue helloParams = ''m''" "tp_taskIdentifier helloParams = ''hello''"
  by (simp_all add: helloParams_def initialStatus_def)

lemma helloAgainParams_fields:
  "initialStatus helloAgainParams = TR_PENDING"
  "tp_environment helloAgainParams = env0" "tp_idempotencyKey helloAgainParams = Some ''k''"
  "tp_queue helloAgainParams = None" "tp_delayUntil helloAgainParams = None"
  "tp_ttl helloAgainParams = None" "tp_parentTaskRunId helloAgainParams = None"
  "tp_resumeParentOnCompletion helloAgainParams = None"
  "tp_masterQueue helloAgainParams = ''m''" "tp_taskIdentifier helloAgainParams = ''hello''"
  by (simp_all add: helloAgainParams_def helloParams_def initialStatus_def)

lemma ttlParams_fields:
  "initialStatus ttlParams = TR_PENDING"
  "tp_environment ttlParams = env0" "tp_idempotencyKey ttlParams = None"
  "tp_queue ttlParams = None" "tp_delayUntil ttlParams = None" "tp_ttl ttlParams = Some ''30s''"
  "tp_parentTaskRunId ttlParams = None" "tp_resumeParentOnCompletion ttlParams = None"
  by (simp_all add: ttlParams_def helloParams_def initialStatus_def)

lemma childParams_fields:
  "initialStatus childParams = TR_PENDING"
  "tp_environment childParams = env0" "tp_idempotencyKey childParams = None"
  "tp_queue childParams = None" "tp_delayUntil childParams = None" "tp_ttl childParams = None"
  "tp_parentTaskRunId childParams = Some 0" "tp_resumeParentOnCompletion childParams = Some True"
  by (simp_all add: childParams_def helloParams_def initialStatus_def)

lemma newTaskRun_fields [simp]:
  "tr_id (newTaskRun st p i) = i" "tr_status (newTaskRun st p i) = st"
  "tr_delayUntil (newTaskRun st p i) = tp_delayUntil p" "tr_ttl (newTaskRun st p i) = tp_ttl p"
  "tr_idempotencyKey (newTaskRun st p i) = tp_idempotencyKey p"
  "tr_taskIdentifier (newTaskRun st p i) = tp_taskIdentifier p"
  "tr_runtimeEnvironment (newTaskRun st p i) = tp_environment p"
  "tr_masterQueue (newTaskRun st p i) = tp_masterQueue p"
  by (simp_all add: newTaskRun_def)

lemmas trigger_defs =
  trigger_def taskRun_create_def trigger_locked_def trigger_blockParent_def trigger_queue_def
  trigger_delay_def trigger_ttl_def trigger_enqueue_def createRunAssociatedWaitpoint_def
  blockRunWithWaitpoint_def enqueueRun_def createExecutionSnapshot_def startHeartbeating_def
  worker_enqueue_def enqueueMessage_def acceptAll_def Let_def

lemma afterHello_fields:
  "taskRuns afterHello = [newTaskRun TR_PENDING helloParams 0]"
  "snapshots afterHello =
     [initialSnapshot (newTaskRun TR_PENDING helloParams 0) 1,
      \<lparr>snap_id = 3, snap_runId = 0, snap_executionStatus = ES_QUEUED,
       snap_description = ''Run was QUEUED'', snap_runStatus = TR_PENDING, snap_workerId = None\<rparr>]"
  "workerJobs afterHello =
     [\<lparr>job_id = Some (heartbeatSnapshotId 3), job_request = heartbeatSnapshot 0 3,
       job_availableAt = Some 61000\<rparr>]"
  "taskRunWaitpoints afterHello = []"
  "nextId afterHello = 4"
  by (simp_all add: afterHello_def trigger_defs helloParams_fields emptyEngine_fields)

text \<open>
  C5 as it is stated fails for the initial snapshot of a run, which \<open>trigger\<close> writes together
  with the run row and not through \<^verbatim>\<open>#createExecutionSnapshot\<close>: after \<open>helloParams\<close> was triggered
  on the empty state, the snapshot table holds the \<^verbatim>\<open>RUN_CREATED\<close> snapshot 1 and the \<^verbatim>\<open>QUEUED\<close>
  snapshot 3 of run 0, and the only job of the worker is the stall-check of snapshot 3.
\<close>

theorem createExecutionSnapshot_schedules_stall_check_counterexample:
  "snapshots afterHello =
     [initialSnapshot (newTaskRun TR_PENDING helloParams 0) 1,
      \<lparr>snap_id = 3, snap_runId = 0, snap_executionStatus = ES_QUEUED,
       snap_description = ''Run was QUEUED'', snap_runStatus = TR_PENDING, snap_workerId = None\<rparr>]
   \<and> snap_executionStatus (initialSnapshot (newTaskRun TR_PENDING helloParams 0) 1) = ES_RUN_CREATED
   \<and> snap_id (initialSnapshot (newTaskRun TR_PENDING helloParams 0) 1) = 1
   \<and> workerJobs afterHello =
     [\<lparr>job_id = Some (heartbeatSnapshotId 3), job_request = heartbeatSnapshot 0 3,
       job_availableAt = Some 61000\<rparr>]"
  by (simp add: afterHello_fields initialSnapshot_def)

subsection \<open>Triggering twice with one idempotency key\<close>

text \<open>
  C1 as it is stated fails: \<open>helloParams\<close>, with the idempotency key \<^verbatim>\<open>k\<close>, is triggered on the
  empty state, and \<open>helloAgainParams\<close>, with the same key, on the state the first call left.
  Where the table has no constraint, the first call returns the pending run 0 and the second
  call returns a new run 4, and the table holds two rows. Where the table keeps the idempotency
  key of a task unique, the first call is the same and the second call throws the error of the
  database. In neither case does the second call return the run of the first.
\<close>

theorem trigger_idempotencyKey_counterexample:
  "tp_idempotencyKey helloParams = Some ''k'' \<and> tp_idempotencyKey helloAgainParams = Some ''k''
   \<and> trigger acceptAll parseSeconds helloParams emptyEngine
       = (afterHello, Inr (newTaskRun TR_PENDING helloParams 0))
   \<and> snd (trigger acceptAll parseSeconds helloAgainParams afterHello)
       = Inr (newTaskRun TR_PENDING helloAgainParams 4)
   \<and> tr_id (newTaskRun TR_PENDING helloParams 0) \<noteq> tr_id (newTaskRun TR_PENDING helloAgainParams 4)
   \<and> taskRuns (fst (trigger acceptAll parseSeconds helloAgainParams afterHello))
       = [newTaskRun TR_PENDING helloParams 0, newTaskRun TR_PENDING helloAgainParams 4]
   \<and> trigger uniqueIdempotencyKey parseSeconds helloParams emptyEngine
       = (afterHello, Inr (newTaskRun TR_PENDING helloParams 0))
   \<and> trigger uniqueIdempotencyKey parseSeconds helloAgainParams afterHello
       = (afterHello, Inl DatabaseError)"
proof -
  have a0: "acceptAll (taskRuns emptyEngine)
              (newTaskRun (initialStatus helloParams) helloParams (nextId emptyEngine))"
    by (simp add: acceptAll_def)
  have a1: "acceptAll (taskRuns afterHello)
              (newTaskRun (initialStatus helloAgainParams) helloAgainParams (nextId afterHello))"
    by (simp add: acceptAll_def)
  have free0: "\<not> (tp_resumeParentOnCompletion helloParams = Some True
                  \<and> tp_parentTaskRunId helloParams \<noteq> None)"
    by (simp add: helloParams_fields)
  have free1: "\<not> (tp_resumeParentOnCompletion helloAgainParams = Some True
                  \<and> tp_parentTaskRunId helloAgainParams \<noteq> None)"
    by (simp add: helloAgainParams_fields)
  have first: "trigger acceptAll parseSeconds helloParams emptyEngine
                 = (afterHello, Inr (newTaskRun TR_PENDING helloParams 0))"
    using trigger_succeeds [where A = acceptAll and P = parseSeconds, OF a0 free0]
    by (simp add: afterHello_def prod_eq_iff helloParams_fields emptyEngine_fields)
  have second: "snd (trigger acceptAll parseSeconds helloAgainParams afterHello)
                  = Inr (newTaskRun TR_PENDING helloAgainParams 4)"
    using trigger_succeeds [where A = acceptAll and P = parseSeconds, OF a1 free1]
    by (simp add: helloAgainParams_fields afterHello_fields)
  have "trigger acceptAll parseSeconds helloAgainParams afterHello
          = (fst (trigger acceptAll parseSeconds helloAgainParams afterHello),
             Inr (newTaskRun TR_PENDING helloAgainParams 4))"
    using second by (simp add: prod_eq_iff)
  from trigger_returns(2) [OF this]
  have rows: "taskRuns (fst (trigger acceptAll parseSeconds helloAgainParams afterHello))
                = [newTaskRun TR_PENDING helloParams 0, newTaskRun TR_PENDING helloAgainParams 4]"
    by (simp add: afterHello_fields)
  have "trigger uniqueIdempotencyKey parseSeconds helloParams emptyEngine
          = trigger acceptAll parseSeconds helloParams emptyEngine"
    by (simp add: trigger_def taskRun_create_def uniqueIdempotencyKey_def acceptAll_def
        emptyEngine_fields)
  with first have firstU: "trigger uniqueIdempotencyKey parseSeconds helloParams emptyEngine
          = (afterHello, Inr (newTaskRun TR_PENDING helloParams 0))"
    by simp
  have "\<not> uniqueIdempotencyKey (taskRuns afterHello)
           (newTaskRun (initialStatus helloAgainParams) helloAgainParams (nextId afterHello))"
    by (simp add: uniqueIdempotencyKey_def afterHello_fields helloParams_fields
        helloAgainParams_fields)
  from trigger_rejected [where A = uniqueIdempotencyKey and P = parseSeconds, OF this]
  have secondU: "trigger uniqueIdempotencyKey parseSeconds helloAgainParams afterHello
                   = (afterHello, Inl DatabaseError)" .
  show ?thesis
    using first second rows firstU secondU
    by (simp add: helloParams_fields helloAgainParams_fields)
qed

text \<open>
  C1, as amended. \<open>RunEngine.trigger\<close> does not look a run up by its idempotency key: every call
  that returns has inserted a new run row with a new id and, with it, the initial snapshot of
  that run. For every idempotency key \<open>k\<close>, two calls with \<open>idempotencyKey = k\<close> that both return
  give two different run ids and leave two run rows with the key \<open>k\<close> and two initial
  snapshots.
\<close>

theorem trigger_twice_creates_two_runs:
  assumes first: "trigger A P p1 s0 = (s1, Inr r1)"
    and second: "trigger A P p2 s1 = (s2, Inr r2)"
    and k1: "tp_idempotencyKey p1 = Some k"
    and k2: "tp_idempotencyKey p2 = Some k"
  shows "tr_id r1 \<noteq> tr_id r2
         \<and> tr_idempotencyKey r1 = Some k \<and> tr_idempotencyKey r2 = Some k
         \<and> taskRuns s2 = taskRuns s0 @ [r1, r2]
         \<and> filter isInitial (snapshots s2) =
             filter isInitial (snapshots s0)
             @ [initialSnapshot r1 (Suc (tr_id r1)), initialSnapshot r2 (Suc (tr_id r2))]"
proof -
  note f = trigger_returns [OF first]
  note g = trigger_returns [OF second]
  have i1: "tr_id r1 = nextId s0" and i2: "tr_id r2 = nextId s1"
    using f(1) g(1) by simp_all
  with f(3) have "tr_id r1 \<noteq> tr_id r2" by simp
  moreover have "tr_idempotencyKey r1 = Some k" "tr_idempotencyKey r2 = Some k"
    using f(1) g(1) k1 k2 by simp_all
  moreover have "taskRuns s2 = taskRuns s0 @ [r1, r2]"
    using f(2) g(2) by simp
  moreover have "filter isInitial (snapshots s2) =
      filter isInitial (snapshots s0)
      @ [initialSnapshot r1 (Suc (tr_id r1)), initialSnapshot r2 (Suc (tr_id r2))]"
    using f(4) g(4) i1 i2 by simp
  ultimately show ?thesis by simp
qed

text \<open>
  The theorem at the call with \<open>helloParams\<close> on the empty state and the call with
  \<open>helloAgainParams\<close> on \<open>afterHello\<close>, of an engine on a table without constraints: the runs 0
  and 4.
\<close>

theorem trigger_twice_creates_two_runs_witness:
  "tr_id (newTaskRun TR_PENDING helloParams 0) \<noteq> tr_id (newTaskRun TR_PENDING helloAgainParams 4)
   \<and> taskRuns (fst (trigger acceptAll parseSeconds helloAgainParams afterHello))
       = [newTaskRun TR_PENDING helloParams 0, newTaskRun TR_PENDING helloAgainParams 4]
   \<and> filter isInitial (snapshots (fst (trigger acceptAll parseSeconds helloAgainParams afterHello)))
       = [initialSnapshot (newTaskRun TR_PENDING helloParams 0) 1,
          initialSnapshot (newTaskRun TR_PENDING helloAgainParams 4) 5]"
proof -
  have free0: "\<not> (tp_resumeParentOnCompletion helloParams = Some True
                  \<and> tp_parentTaskRunId helloParams \<noteq> None)"
    by (simp add: helloParams_fields)
  have free1: "\<not> (tp_resumeParentOnCompletion helloAgainParams = Some True
                  \<and> tp_parentTaskRunId helloAgainParams \<noteq> None)"
    by (simp add: helloAgainParams_fields)
  have "acceptAll (taskRuns emptyEngine)
          (newTaskRun (initialStatus helloParams) helloParams (nextId emptyEngine))"
    by (simp add: acceptAll_def)
  from trigger_succeeds [where A = acceptAll and P = parseSeconds, OF this free0]
  have first: "trigger acceptAll parseSeconds helloParams emptyEngine
                 = (afterHello, Inr (newTaskRun TR_PENDING helloParams 0))"
    by (simp add: afterHello_def prod_eq_iff helloParams_fields emptyEngine_fields)
  have "acceptAll (taskRuns afterHello)
          (newTaskRun (initialStatus helloAgainParams) helloAgainParams (nextId afterHello))"
    by (simp add: acceptAll_def)
  from trigger_succeeds [where A = acceptAll and P = parseSeconds, OF this free1]
  have second: "trigger acceptAll parseSeconds helloAgainParams afterHello
                  = (fst (trigger acceptAll parseSeconds helloAgainParams afterHello),
                     Inr (newTaskRun TR_PENDING helloAgainParams 4))"
    by (simp add: prod_eq_iff helloAgainParams_fields afterHello_fields)
  have k1: "tp_idempotencyKey helloParams = Some ''k''"
    by (simp add: helloParams_fields)
  have k2: "tp_idempotencyKey helloAgainParams = Some ''k''"
    by (simp add: helloAgainParams_fields)
  from trigger_twice_creates_two_runs [OF first second k1 k2] show ?thesis
    by (simp add: emptyEngine_fields isInitial_def)
qed

subsection \<open>Triggering a child whose parent waits for it\<close>

text \<open>
  Whatever the request and the state, a trigger call with \<^verbatim>\<open>resumeParentOnCompletion = true\<close>
  and a \<^verbatim>\<open>parentRunId\<close> ends in an error and inserts no \<^verbatim>\<open>RunWaitpoint\<close> row; when the table has
  taken the new run row, the error is the \<^verbatim>\<open>NotImplementedError\<close> of \<^verbatim>\<open>#blockRunWithWaitpoint\<close>.
\<close>

lemma trigger_resume_parent_always_throws:
  assumes resume: "tp_resumeParentOnCompletion p = Some True"
    and parent: "tp_parentTaskRunId p = Some parentRunId"
  shows "isl (snd (trigger A P p s))
         \<and> taskRunWaitpoints (fst (trigger A P p s)) = taskRunWaitpoints s
         \<and> (A (taskRuns s) (newTaskRun (initialStatus p) p (nextId s)) \<longrightarrow>
              snd (trigger A P p s)
                = Inl (NotImplementedError ''Not implemented #blockRunWithWaitpoint''))"
proof (cases "A (taskRuns s) (newTaskRun (initialStatus p) p (nextId s))")
  case False
  from trigger_rejected [where A = A and P = P, OF False] False show ?thesis by simp
next
  case True
  show ?thesis
    unfolding trigger_accepted [where A = A and s = s and p = p and P = P, OF True]
    using True
    by (simp add: trigger_locked_def createRunAssociatedWaitpoint_def Let_def
        trigger_blockParent_blocked [OF resume parent])
qed

text \<open>
  C2, evaluated where it fails. The claim is that after a trigger call with
  \<^verbatim>\<open>resumeParentOnCompletion = true\<close> and a \<^verbatim>\<open>parentRunId\<close> a \<^verbatim>\<open>RunWaitpoint\<close> row links the parent
  run to the run-type waitpoint of the new child. Run 0 of \<open>afterHello\<close> triggers the child
  \<open>childParams\<close>. The call does not return the child: it fails with the \<^verbatim>\<open>NotImplementedError\<close>
  that \<^verbatim>\<open>#blockRunWithWaitpoint\<close> throws in front of its own \<^verbatim>\<open>taskRunWaitpoint.create\<close>, and
  there is no \<^verbatim>\<open>RunWaitpoint\<close> row; the row of the child, written before the throw, has no link
  to its parent's wait.
\<close>

theorem trigger_resume_parent_not_blocked:
  "tp_resumeParentOnCompletion childParams = Some True
   \<and> tp_parentTaskRunId childParams = Some 0
   \<and> taskRuns afterHello = [newTaskRun TR_PENDING helloParams 0]
   \<and> snd (trigger acceptAll parseSeconds childParams afterHello)
       = Inl (NotImplementedError ''Not implemented #blockRunWithWaitpoint'')
   \<and> taskRuns (fst (trigger acceptAll parseSeconds childParams afterHello))
       = [newTaskRun TR_PENDING helloParams 0, newTaskRun TR_PENDING childParams 4]
   \<and> taskRunWaitpoints (fst (trigger acceptAll parseSeconds childParams afterHello)) = []"
  by (simp add: childParams_fields afterHello_fields trigger_defs)

subsection \<open>Triggering with a time to live\<close>

text \<open>
  Whenever the block of the time to live hands a job to the worker, the job is an \<^verbatim>\<open>expireRun\<close>
  request without id and without \<^verbatim>\<open>availableAt\<close>, whatever date the parser gave.
\<close>

lemma trigger_ttl_job:
  assumes "tr_delayUntil r = None" and "tr_ttl r = Some ttl" and "ttl \<noteq> []"
    and "P (now s) ttl = Some expireAt"
  shows "workerJobs (trigger_ttl P r s)
           = workerJobs s @ [\<lparr>job_id = None, job_request = expireRun (tr_id r), job_availableAt = None\<rparr>]"
  using assms by (simp add: trigger_ttl_def worker_enqueue_def)

text \<open>
  C4, evaluated. \<open>ttlParams\<close> has the time to live \<^verbatim>\<open>30s\<close> and no \<^verbatim>\<open>delayUntil\<close>; the clock reads
  1000 and the parser gives the date 31000. The \<^verbatim>\<open>expireRun\<close> job that \<open>trigger\<close> hands to the
  worker has no \<^verbatim>\<open>availableAt\<close>: the date of expiry is computed and not passed on. (The second
  job is the stall-check of the \<^verbatim>\<open>QUEUED\<close> snapshot.)
\<close>

theorem trigger_ttl_expireRun_without_availableAt:
  "tp_ttl ttlParams = Some ''30s'' \<and> tp_delayUntil ttlParams = None
   \<and> parseSeconds (now emptyEngine) ''30s'' = Some 31000
   \<and> snd (trigger acceptAll parseSeconds ttlParams emptyEngine)
       = Inr (newTaskRun TR_PENDING ttlParams 0)
   \<and> workerJobs (fst (trigger acceptAll parseSeconds ttlParams emptyEngine))
       = [\<lparr>job_id = None, job_request = expireRun 0, job_availableAt = None\<rparr>,
          \<lparr>job_id = Some (heartbeatSnapshotId 3), job_request = heartbeatSnapshot 0 3,
           job_availableAt = Some 61000\<rparr>]"
  by (simp add: ttlParams_fields emptyEngine_fields trigger_defs parseSeconds_def)


section \<open>Properties of the runner\<close>

lemmas controller_defs =
  handleSnapshotChange_def snapshotFriendlyId_def updateRunPhase_def waitForNextRun_def
  enterWarmStartPhase_def onExitRunPhase_def Let_def

text \<open>
  C7 as it is stated fails while another reaction is in progress: \<open>runningController\<close> holds
  attempt 1 of \<^verbatim>\<open>run_1\<close> at \<^verbatim>\<open>snapshot_1\<close>, the platform reports attempt 2 of \<^verbatim>\<open>run_1\<close> at
  \<^verbatim>\<open>snapshot_2\<close>, and the flag of \<open>handleSnapshotChange\<close> is set. The update is dropped: the runner
  stays in the run phase with the attempt it holds, and its process is not killed.
\<close>

theorem handleSnapshotChange_attempt_number_counterexample:
  "ctl_state runningController
     = RUN \<lparr>run_friendlyId = ''run_1'', run_attemptNumber = Attempt 1\<rparr>
           \<lparr>snapshot_friendlyId = ''snapshot_1''\<rparr>
   \<and> run_friendlyId (ed_run nextAttemptData) = ''run_1''
   \<and> run_attemptNumber (ed_run nextAttemptData) \<noteq> Attempt 1
   \<and> snapshot_friendlyId (ed_snapshot nextAttemptData) \<noteq> ''snapshot_1''
   \<and> handleSnapshotChange nextAttemptData (runningController\<lparr>handleSnapshotChangeLock := True\<rparr>)
       = (runningController\<lparr>handleSnapshotChangeLock := True\<rparr>, AlreadyInProgress)
   \<and> ctl_state (runningController\<lparr>handleSnapshotChangeLock := True\<rparr>) \<noteq> WARM_START
   \<and> taskRunProcess (runningController\<lparr>handleSnapshotChangeLock := True\<rparr>) = Some ProcessRunning"
  by (simp add: runningController_def nextAttemptData_def handleSnapshotChange_def)

text \<open>
  C7, as amended. On the runner, for every snapshot update concerning the run the runner
  currently holds (at a snapshot whose id is not empty), that arrives while no other reaction
  to a snapshot change and no wait for the next run is in progress: if the reported attempt
  number differs from the attempt number the runner holds (with the snapshot id changed), the
  runner does not apply the update; it aborts the current attempt (the heartbeat and the
  snapshot poller stop, the run is unsubscribed, the child process is killed) and is in the
  warm-start phase.
\<close>

theorem handleSnapshotChange_attempt_number_changed:
  assumes "ctl_state c = RUN heldRun heldSnapshot"
    and "snapshot_friendlyId heldSnapshot \<noteq> []"
    and "run_friendlyId (ed_run d) = run_friendlyId heldRun"
    and "snapshot_friendlyId (ed_snapshot d) \<noteq> snapshot_friendlyId heldSnapshot"
    and "run_attemptNumber (ed_run d) \<noteq> run_attemptNumber heldRun"
    and "\<not> handleSnapshotChangeLock c"
    and "\<not> waitForNextRunLock c"
  shows "snd (handleSnapshotChange d c) = WaitingForNextRun
         \<and> ctl_state (fst (handleSnapshotChange d c)) = WARM_START
         \<and> taskRunProcess (fst (handleSnapshotChange d c))
             = map_option (\<lambda>_. ProcessKilled) (taskRunProcess c)
         \<and> \<not> runHeartbeat (fst (handleSnapshotChange d c))
         \<and> \<not> snapshotPoller (fst (handleSnapshotChange d c))
         \<and> socketEmitted (fst (handleSnapshotChange d c))
             = socketEmitted c
               @ [run_stop (run_friendlyId heldRun) (snapshot_friendlyId heldSnapshot)]
         \<and> \<not> handleSnapshotChangeLock (fst (handleSnapshotChange d c))"
  using assms by (auto simp: controller_defs)

text \<open>The theorem at \<open>runningController\<close> and the report of attempt 2.\<close>

theorem handleSnapshotChange_attempt_number_changed_witness:
  "snd (handleSnapshotChange nextAttemptData runningController) = WaitingForNextRun
   \<and> ctl_state (fst (handleSnapshotChange nextAttemptData runningController)) = WARM_START
   \<and> taskRunProcess (fst (handleSnapshotChange nextAttemptData runningController))
       = Some ProcessKilled
   \<and> socketEmitted (fst (handleSnapshotChange nextAttemptData runningController))
       = [run_stop ''run_1'' ''snapshot_1'']"
proof -
  have h1: "ctl_state runningController
              = RUN \<lparr>run_friendlyId = ''run_1'', run_attemptNumber = Attempt 1\<rparr>
                    \<lparr>snapshot_friendlyId = ''snapshot_1''\<rparr>"
    by (simp add: runningController_def)
  have h0: "snapshot_friendlyId \<lparr>snapshot_friendlyId = ''snapshot_1''\<rparr> \<noteq> []"
    by simp
  have h2: "run_friendlyId (ed_run nextAttemptData)
              = run_friendlyId \<lparr>run_friendlyId = ''run_1'', run_attemptNumber = Attempt 1\<rparr>"
    by (simp add: nextAttemptData_def)
  have h3: "snapshot_friendlyId (ed_snapshot nextAttemptData)
              \<noteq> snapshot_friendlyId \<lparr>snapshot_friendlyId = ''snapshot_1''\<rparr>"
    by (simp add: nextAttemptData_def)
  have h4: "run_attemptNumber (ed_run nextAttemptData)
              \<noteq> run_attemptNumber \<lparr>run_friendlyId = ''run_1'', run_attemptNumber = Attempt 1\<rparr>"
    by (simp add: nextAttemptData_def)
  have h5: "\<not> handleSnapshotChangeLock runningController"
    by (simp add: runningController_def)
  have h6: "\<not> waitForNextRunLock runningController"
    by (simp add: runningController_def)
  from handleSnapshotChange_attempt_number_changed [OF h1 h0 h2 h3 h4 h5 h6] show ?thesis
    by (simp add: runningController_def)
qed

end
